theory Spec2Isabelle
  imports Complex_Main "HOL-Library.Char_ord" "HOL-Library.List_Lexorder"
begin

section \<open>Data model\<close>

text \<open>
  The records of \<^verbatim>\<open>src/types/device-data.ts\<close> and \<^verbatim>\<open>src/lib/alert-storage.ts\<close>.
  A TypeScript \<^verbatim>\<open>number\<close> is modelled as a real: every finite double is one, and the
  code only compares numbers with \<^verbatim>\<open>>\<close>. An optional field is an \<open>option\<close>, with
  \<open>None\<close> for \<^verbatim>\<open>undefined\<close>. The field \<^verbatim>\<open>id\<close> is written \<open>id'\<close>, since \<open>id\<close> is
  the identity function of HOL.
\<close>

record DeviceData =
  id' :: string
  timestamp :: string
  location :: string
  latitude :: real
  longitude :: real
  panicstatus :: bool
  fallstatus :: bool
  heartbeat :: real

datatype status = PANIC | FALL

datatype severity = LOW | MEDIUM | HIGH | CRITICAL

record AlertData =
  id' :: string
  deviceId :: string
  timestamp :: string
  location :: string
  latitude :: real
  longitude :: real
  status :: status
  heartbeat :: real
  coordinates :: string
  emailSent :: bool
  archived :: "bool option"
  severity :: "severity option"

section \<open>JSON values\<close>

text \<open>
  What \<^verbatim>\<open>JSON.parse\<close> returns, and what the arrays under the two keys of the store
  hold: any JSON value. \<^verbatim>\<open>importAlerts\<close> stores an array as it finds it, so an element
  of a stored collection need not be an alert record; it can be \<^verbatim>\<open>null\<close>, a number or
  an object with other fields. \<open>JAlert a\<close> is the object of a well-formed record: it
  stands for the object with the entries \<open>fieldsOf a\<close> and is read like it.
\<close>

datatype json =
    JNull
  | JBool bool
  | JNum real
  | JStr string
  | JArr "json list"
  | JObj "(string \<times> json) list"
  | JAlert AlertData

fun statusName :: "status \<Rightarrow> string" where
  "statusName PANIC = ''PANIC''"
| "statusName FALL = ''FALL''"

fun severityName :: "severity \<Rightarrow> string" where
  "severityName LOW = ''LOW''"
| "severityName MEDIUM = ''MEDIUM''"
| "severityName HIGH = ''HIGH''"
| "severityName CRITICAL = ''CRITICAL''"

definition fieldsOf :: "AlertData \<Rightarrow> (string \<times> json) list" where
  "fieldsOf a =
     [(''id'', JStr (AlertData.id' a)),
      (''deviceId'', JStr (deviceId a)),
      (''timestamp'', JStr (AlertData.timestamp a)),
      (''location'', JStr (AlertData.location a)),
      (''latitude'', JNum (AlertData.latitude a)),
      (''longitude'', JNum (AlertData.longitude a)),
      (''status'', JStr (statusName (status a))),
      (''heartbeat'', JNum (AlertData.heartbeat a)),
      (''coordinates'', JStr (coordinates a)),
      (''emailSent'', JBool (emailSent a))]
     @ (case severity a of None \<Rightarrow> [] | Some v \<Rightarrow> [(''severity'', JStr (severityName v))])
     @ (case archived a of None \<Rightarrow> [] | Some b \<Rightarrow> [(''archived'', JBool b)])"

text \<open>
  Reading a property. Of \<^verbatim>\<open>null\<close> it throws a TypeError; of an object it is the value
  of the key (the last one, when the text of the document repeats a key) or
  \<^verbatim>\<open>undefined\<close>; a number, boolean, string or array has no property of the names that
  the code reads (\<^verbatim>\<open>id\<close>, \<^verbatim>\<open>timestamp\<close>, \<^verbatim>\<open>status\<close>, \<^verbatim>\<open>emailSent\<close>,
  \<^verbatim>\<open>activeAlerts\<close>, \<^verbatim>\<open>archivedAlerts\<close>).
\<close>

datatype lookup = Throws | Undefined | Value json

definition entryOf :: "(string \<times> json) list \<Rightarrow> string \<Rightarrow> lookup" where
  "entryOf kvs name = (case map_of (rev kvs) name of None \<Rightarrow> Undefined | Some v \<Rightarrow> Value v)"

fun getProp :: "json \<Rightarrow> string \<Rightarrow> lookup" where
  "getProp JNull name = Throws"
| "getProp (JObj kvs) name = entryOf kvs name"
| "getProp (JAlert a) name = entryOf (fieldsOf a) name"
| "getProp _ name = Undefined"

fun truthy :: "json \<Rightarrow> bool" where
  "truthy JNull = False"
| "truthy (JBool b) = b"
| "truthy (JNum n) = (n \<noteq> 0)"
| "truthy (JStr s) = (s \<noteq> [])"
| "truthy (JArr xs) = True"
| "truthy (JObj kvs) = True"
| "truthy (JAlert a) = True"

fun isArray :: "json \<Rightarrow> bool" where
  "isArray (JArr xs) = True"
| "isArray _ = False"

fun elements :: "json \<Rightarrow> json list" where
  "elements (JArr xs) = xs"
| "elements _ = []"

text \<open>
  Writing a property of an object: the key keeps its place when the object has it, and
  comes last when it has not.
\<close>

definition setField :: "(string \<times> json) list \<Rightarrow> string \<Rightarrow> json \<Rightarrow> (string \<times> json) list" where
  "setField kvs k v =
     (if k \<in> set (map fst kvs)
      then map (\<lambda>kv. if fst kv = k then (k, v) else kv) kvs
      else kvs @ [(k, v)])"

text \<open>
  The own properties that an object spread \<^verbatim>\<open>{...x}\<close> copies: the entries of an
  object, the elements of an array and the characters of a string under their indices,
  nothing of \<^verbatim>\<open>null\<close>, a number or a boolean. (The characters of a \<open>string\<close> are
  bytes, those of JavaScript code units: they are the same for ASCII.)
\<close>

function showNat :: "nat \<Rightarrow> string" where
  "showNat n =
     (if n < 10 then [char_of (48 + n)]
      else showNat (n div 10) @ [char_of (48 + n mod 10)])"
  by pat_completeness auto
termination
  by (relation "measure (\<lambda>n. n)") auto

declare showNat.simps [simp del]

fun ownProps :: "json \<Rightarrow> (string \<times> json) list" where
  "ownProps (JObj kvs) = kvs"
| "ownProps (JAlert a) = fieldsOf a"
| "ownProps (JArr xs) = zip (map showNat [0..<length xs]) xs"
| "ownProps (JStr s) = zip (map showNat [0..<length s]) (map (\<lambda>c. JStr [c]) s)"
| "ownProps _ = []"

text \<open>\<^verbatim>\<open>{ ...alert, archived: true }\<close>\<close>

fun archivedCopy :: "json \<Rightarrow> json" where
  "archivedCopy (JAlert a) = JAlert (a\<lparr>archived := Some True\<rparr>)"
| "archivedCopy x = JObj (setField (ownProps x) ''archived'' (JBool True))"

text \<open>
  \<^verbatim>\<open>x.emailSent = true\<close>. The modules are strict code: the assignment throws a
  TypeError on \<^verbatim>\<open>null\<close> and on a number, boolean or string; on an array it sets a
  property that \<^verbatim>\<open>JSON.stringify\<close> does not write.
\<close>

fun setEmailSent :: "json \<Rightarrow> json option" where
  "setEmailSent (JAlert a) = Some (JAlert (a\<lparr>emailSent := True\<rparr>))"
| "setEmailSent (JObj kvs) = Some (JObj (setField kvs ''emailSent'' (JBool True)))"
| "setEmailSent (JArr xs) = Some (JArr xs)"
| "setEmailSent _ = None"

text \<open>
  The array methods that the code calls with a callback that can throw: \<open>None\<close> is the
  exception, which ends the iteration at the element that raises it.
\<close>

fun arraySome :: "('a \<Rightarrow> bool option) \<Rightarrow> 'a list \<Rightarrow> bool option" where
  "arraySome p [] = Some False"
| "arraySome p (x # xs) =
     (case p x of
        None \<Rightarrow> None
      | Some b \<Rightarrow> if b then Some True else arraySome p xs)"

fun arrayFilter :: "('a \<Rightarrow> bool option) \<Rightarrow> 'a list \<Rightarrow> 'a list option" where
  "arrayFilter p [] = Some []"
| "arrayFilter p (x # xs) =
     (case p x of
        None \<Rightarrow> None
      | Some b \<Rightarrow>
          (case arrayFilter p xs of
             None \<Rightarrow> None
           | Some ys \<Rightarrow> Some (if b then x # ys else ys)))"


fun arrayFindIndex :: "('a \<Rightarrow> bool option) \<Rightarrow> 'a list \<Rightarrow> nat option option" where
  "arrayFindIndex p [] = Some None"
| "arrayFindIndex p (x # xs) =
     (case p x of
        None \<Rightarrow> None
      | Some b \<Rightarrow> if b then Some (Some 0) else map_option (map_option Suc) (arrayFindIndex p xs))"

fun arrayMap :: "('a \<Rightarrow> 'b option) \<Rightarrow> 'a list \<Rightarrow> 'b list option" where
  "arrayMap f [] = Some []"
| "arrayMap f (x # xs) =
     (case f x of
        None \<Rightarrow> None
      | Some y \<Rightarrow> (case arrayMap f xs of None \<Rightarrow> None | Some ys \<Rightarrow> Some (y # ys)))"

text \<open>\<^verbatim>\<open>x.id === alertId\<close> and \<^verbatim>\<open>x.id !== alertId\<close>, for a string \<^verbatim>\<open>alertId\<close>.\<close>

definition idEquals :: "string \<Rightarrow> json \<Rightarrow> bool option" where
  "idEquals alertId x =
     (case getProp x ''id'' of Throws \<Rightarrow> None | r \<Rightarrow> Some (r = Value (JStr alertId)))"

definition idDiffers :: "string \<Rightarrow> json \<Rightarrow> bool option" where
  "idDiffers alertId x =
     (case getProp x ''id'' of Throws \<Rightarrow> None | r \<Rightarrow> Some (r \<noteq> Value (JStr alertId)))"

section \<open>The browser's localStorage\<close>

text \<open>
  The store manager uses two keys of \<^verbatim>\<open>localStorage\<close>. What a key holds is a string or
  nothing; the model keeps what \<^verbatim>\<open>JSON.parse\<close> makes of it: \<open>Absent\<close> when
  \<^verbatim>\<open>getItem\<close> returns \<^verbatim>\<open>null\<close>, \<open>Garbled\<close> for a string on which
  \<^verbatim>\<open>JSON.parse\<close> throws, and \<open>Holds xs\<close> for the serialisation of the array \<open>xs\<close>.
  A string that parses is an array: every write of the store manager under the two
  keys is the \<^verbatim>\<open>JSON.stringify\<close> of one, and \<^verbatim>\<open>importAlerts\<close> asks
  \<^verbatim>\<open>Array.isArray\<close> before it writes. The elements are not looked at by any write,
  so they are any JSON values. \<^verbatim>\<open>JSON.parse (JSON.stringify xs)\<close> is taken to be \<open>xs\<close>.

  \<^verbatim>\<open>localStorage.setItem\<close> throws when the browser refuses the write (quota exceeded).
  Whether it does is the browser's decision: a \<open>quota\<close> says which writes are
  accepted, and \<open>setItem\<close> returns \<open>None\<close> for the exception.
\<close>

datatype key = STORAGE_KEY | ARCHIVED_KEY

datatype cell = Absent | Garbled | Holds "json list"

record store =
  safetrack_critical_alerts :: cell
  safetrack_archived_alerts :: cell

type_synonym quota = "key \<Rightarrow> json list \<Rightarrow> bool"

definition emptyStore :: store where
  "emptyStore = \<lparr>safetrack_critical_alerts = Absent, safetrack_archived_alerts = Absent\<rparr>"

fun getItem :: "key \<Rightarrow> store \<Rightarrow> cell" where
  "getItem STORAGE_KEY s = safetrack_critical_alerts s"
| "getItem ARCHIVED_KEY s = safetrack_archived_alerts s"

fun putItem :: "key \<Rightarrow> cell \<Rightarrow> store \<Rightarrow> store" where
  "putItem STORAGE_KEY c s = s\<lparr>safetrack_critical_alerts := c\<rparr>"
| "putItem ARCHIVED_KEY c s = s\<lparr>safetrack_archived_alerts := c\<rparr>"

definition setItem :: "quota \<Rightarrow> key \<Rightarrow> json list \<Rightarrow> store \<Rightarrow> store option" where
  "setItem q k v s = (if q k v then Some (putItem k (Holds v) s) else None)"

definition removeItem :: "key \<Rightarrow> store \<Rightarrow> store" where
  "removeItem k s = putItem k Absent s"

text \<open>\<^verbatim>\<open>stored ? JSON.parse(stored) : []\<close>, with the \<^verbatim>\<open>catch\<close> that returns \<^verbatim>\<open>[]\<close>.\<close>

fun parseStored :: "cell \<Rightarrow> json list" where
  "parseStored Absent = []"
| "parseStored Garbled = []"
| "parseStored (Holds xs) = xs"

section \<open>AlertStorageManager\<close>

text \<open>
  Every method but \<^verbatim>\<open>cleanupOldAlerts\<close>, \<^verbatim>\<open>exportAlerts\<close> and
  \<^verbatim>\<open>getStorageStats\<close> has a \<^verbatim>\<open>try\<close> around its body whose \<^verbatim>\<open>catch\<close> returns
  \<^verbatim>\<open>false\<close> for every exception: the refused write and the TypeError of reading a
  property of \<^verbatim>\<open>null\<close> alike.
\<close>

definition MAX_ACTIVE_ALERTS :: nat where
  "MAX_ACTIVE_ALERTS = 1000"

definition MAX_ARCHIVED_ALERTS :: nat where
  "MAX_ARCHIVED_ALERTS = 5000"

definition getAllAlerts :: "store \<Rightarrow> json list" where
  "getAllAlerts s = parseStored (getItem STORAGE_KEY s)"

definition getArchivedAlerts :: "store \<Rightarrow> json list" where
  "getArchivedAlerts s = parseStored (getItem ARCHIVED_KEY s)"

definition classifyAlertSeverity :: "AlertData \<Rightarrow> severity" where
  "classifyAlertSeverity alert =
     (if heartbeat alert > 120 then CRITICAL
      else if heartbeat alert > 100 then HIGH
      else if heartbeat alert > 90 then MEDIUM
      else LOW)"

text \<open>
  \<^verbatim>\<open>archiveAlerts\<close>: the result is the boolean returned and the store afterwards.
  The spread throws on no value, so the refused write is the one exception.
\<close>

definition archiveAlerts :: "quota \<Rightarrow> json list \<Rightarrow> store \<Rightarrow> bool \<times> store" where
  "archiveAlerts q alerts s =
     (let existingArchived = getArchivedAlerts s;
          updatedArchived = map archivedCopy alerts @ existingArchived;
          limitedArchived = take MAX_ARCHIVED_ALERTS updatedArchived
      in case setItem q ARCHIVED_KEY limitedArchived s of
           None \<Rightarrow> (False, s)
         | Some s' \<Rightarrow> (True, s'))"

text \<open>
  \<^verbatim>\<open>saveAlert\<close>. The candidate is the typed object that the caller built. The source
  assigns \<^verbatim>\<open>alert.severity\<close> on it before it prepends it; the record stored is the
  candidate with that field set. The boolean that \<^verbatim>\<open>archiveAlerts\<close> returns is not
  looked at.
\<close>

definition saveAlert :: "quota \<Rightarrow> AlertData \<Rightarrow> store \<Rightarrow> bool \<times> store" where
  "saveAlert q alert s =
     (let existingAlerts = getAllAlerts s
      in case arraySome (idEquals (AlertData.id' alert)) existingAlerts of
           None \<Rightarrow> (False, s)
         | Some isDuplicate \<Rightarrow>
             (if isDuplicate then (False, s)
              else
                (let alert' = alert\<lparr>severity := Some (classifyAlertSeverity alert)\<rparr>;
                     updatedAlerts = JAlert alert' # existingAlerts
                 in if length updatedAlerts > MAX_ACTIVE_ALERTS then
                      (let alertsToArchive = drop MAX_ACTIVE_ALERTS updatedAlerts;
                           s1 = snd (archiveAlerts q alertsToArchive s);
                           activeAlerts = take MAX_ACTIVE_ALERTS updatedAlerts
                       in case setItem q STORAGE_KEY activeAlerts s1 of
                            None \<Rightarrow> (False, s1)
                          | Some s2 \<Rightarrow> (True, s2))
                    else
                      (case setItem q STORAGE_KEY updatedAlerts s of
                         None \<Rightarrow> (False, s)
                       | Some s2 \<Rightarrow> (True, s2)))))"

definition deleteAlert :: "quota \<Rightarrow> string \<Rightarrow> store \<Rightarrow> bool \<times> store" where
  "deleteAlert q alertId s =
     (let alerts = getAllAlerts s
      in case arrayFilter (idDiffers alertId) alerts of
           None \<Rightarrow> (False, s)
         | Some updatedAlerts \<Rightarrow>
             (case setItem q STORAGE_KEY updatedAlerts s of
                None \<Rightarrow> (False, s)
              | Some s' \<Rightarrow> (True, s')))"

definition clearAllAlerts :: "store \<Rightarrow> bool \<times> store" where
  "clearAllAlerts s = (True, removeItem STORAGE_KEY s)"

definition clearArchivedAlerts :: "store \<Rightarrow> bool \<times> store" where
  "clearArchivedAlerts s = (True, removeItem ARCHIVED_KEY s)"

definition markEmailSent :: "quota \<Rightarrow> string \<Rightarrow> store \<Rightarrow> bool \<times> store" where
  "markEmailSent q alertId s =
     (let alerts = getAllAlerts s
      in case arrayFindIndex (idEquals alertId) alerts of
           None \<Rightarrow> (False, s)
         | Some None \<Rightarrow> (False, s)
         | Some (Some alertIndex) \<Rightarrow>
             (case setEmailSent (alerts ! alertIndex) of
                None \<Rightarrow> (False, s)
              | Some marked \<Rightarrow>
                  (case setItem q STORAGE_KEY (alerts[alertIndex := marked]) s of
                     None \<Rightarrow> (False, s)
                   | Some s' \<Rightarrow> (True, s'))))"

subsection \<open>Cleanup by age\<close>

text \<open>
  Dates are time values: milliseconds since the epoch, or NaN for an Invalid Date, which
  is \<open>None\<close>. What \<^verbatim>\<open>new Date(v)\<close> makes of the value read from a record, the time of
  the call and the calendar arithmetic of \<^verbatim>\<open>setDate\<close> belong to the JavaScript engine
  and are taken as a \<open>calendar\<close>. \<open>newDate\<close> is given the result of reading
  \<^verbatim>\<open>timestamp\<close>, a string in an alert record and anything or \<^verbatim>\<open>undefined\<close> in
  another element; it answers \<open>Made d\<close> with the date, or \<open>Raised\<close> when the
  constructor throws a TypeError, which it does for an object that cannot be converted to
  a primitive value. \<open>setDateBack t d\<close> is the time value of the date \<open>t\<close> after
  \<^verbatim>\<open>setDate(getDate() - d)\<close>, local time and so not a fixed number of milliseconds a
  day, and an Invalid Date when the day is out of the range of dates. A comparison with
  NaN is false, both ways.
\<close>

datatype made = Raised | Made "int option"

record calendar =
  newDate :: "lookup \<Rightarrow> made"
  today :: int
  setDateBack :: "int \<Rightarrow> int \<Rightarrow> int option"

definition dateGe :: "int option \<Rightarrow> int option \<Rightarrow> bool" where
  "dateGe d cutoff =
     (case d of None \<Rightarrow> False | Some t \<Rightarrow> (case cutoff of None \<Rightarrow> False | Some c \<Rightarrow> t \<ge> c))"

definition dateLt :: "int option \<Rightarrow> int option \<Rightarrow> bool" where
  "dateLt d cutoff =
     (case d of None \<Rightarrow> False | Some t \<Rightarrow> (case cutoff of None \<Rightarrow> False | Some c \<Rightarrow> t < c))"

definition cutoffDate :: "calendar \<Rightarrow> int \<Rightarrow> int option" where
  "cutoffDate cal daysToKeep = setDateBack cal (today cal) daysToKeep"

text \<open>
  \<^verbatim>\<open>new Date(alert.timestamp)\<close>: it throws when reading the property does, of
  \<^verbatim>\<open>null\<close>, and when the constructor does.
\<close>

definition dateOf :: "calendar \<Rightarrow> json \<Rightarrow> made" where
  "dateOf cal x = (case getProp x ''timestamp'' of Throws \<Rightarrow> Raised | r \<Rightarrow> newDate cal r)"

text \<open>
  The two callbacks, \<^verbatim>\<open>new Date(alert.timestamp) >= cutoffDate\<close> and \<^verbatim>\<open><\<close>, and
  what they say of an element: that it is kept, that it is old.
\<close>

definition notOlder :: "calendar \<Rightarrow> int option \<Rightarrow> json \<Rightarrow> bool option" where
  "notOlder cal cutoff x =
     (case dateOf cal x of Raised \<Rightarrow> None | Made d \<Rightarrow> Some (dateGe d cutoff))"

definition older :: "calendar \<Rightarrow> int option \<Rightarrow> json \<Rightarrow> bool option" where
  "older cal cutoff x =
     (case dateOf cal x of Raised \<Rightarrow> None | Made d \<Rightarrow> Some (dateLt d cutoff))"

definition keptBy :: "calendar \<Rightarrow> int option \<Rightarrow> json \<Rightarrow> bool" where
  "keptBy cal cutoff x = (notOlder cal cutoff x = Some True)"

definition oldBy :: "calendar \<Rightarrow> int option \<Rightarrow> json \<Rightarrow> bool" where
  "oldBy cal cutoff x = (older cal cutoff x = Some True)"

text \<open>
  \<^verbatim>\<open>cleanupOldAlerts\<close> has no \<^verbatim>\<open>try\<close> of its own: the TypeError of a filter and the
  refused write of the active collection leave the function, which is the result
  \<open>None\<close>.
\<close>

definition cleanupOldAlerts :: "quota \<Rightarrow> calendar \<Rightarrow> int \<Rightarrow> store \<Rightarrow> nat option \<times> store" where
  "cleanupOldAlerts q cal daysToKeep s =
     (let alerts = getAllAlerts s
      in case arrayFilter (notOlder cal (cutoffDate cal daysToKeep)) alerts of
           None \<Rightarrow> (None, s)
         | Some alertsToKeep \<Rightarrow>
             (case arrayFilter (older cal (cutoffDate cal daysToKeep)) alerts of
                None \<Rightarrow> (None, s)
              | Some alertsToArchive \<Rightarrow>
                  (if length alertsToArchive > 0 then
                     (let s1 = snd (archiveAlerts q alertsToArchive s)
                      in case setItem q STORAGE_KEY alertsToKeep s1 of
                           None \<Rightarrow> (None, s1)
                         | Some s2 \<Rightarrow> (Some (length alertsToArchive), s2))
                   else (Some (length alertsToArchive), s))))"

subsection \<open>Statistics, export and import\<close>

record StorageStats =
  totalAlerts :: nat
  panicAlerts :: nat
  fallAlerts :: nat
  emailsSent :: nat
  archivedAlerts :: nat
  oldestAlert :: lookup
  newestAlert :: lookup
  storageSize :: nat

text \<open>
  The byte size of a stored string is not a function of the model's \<open>cell\<close>; it is a
  parameter \<open>bytes\<close>. A missing key counts as the empty string.
\<close>

definition itemSize :: "(cell \<Rightarrow> nat) \<Rightarrow> cell \<Rightarrow> nat" where
  "itemSize bytes c = (case c of Absent \<Rightarrow> 0 | _ \<Rightarrow> bytes c)"

definition calculateStorageSize :: "(cell \<Rightarrow> nat) \<Rightarrow> store \<Rightarrow> nat" where
  "calculateStorageSize bytes s =
     itemSize bytes (getItem STORAGE_KEY s) + itemSize bytes (getItem ARCHIVED_KEY s)"

text \<open>
  \<^verbatim>\<open>getStorageStats\<close> has no \<^verbatim>\<open>try\<close>: it throws, the result \<open>None\<close>, when reading
  \<^verbatim>\<open>timestamp\<close> does, and the callbacks after that one read the same elements. The
  timestamps are what the elements hold, strings in alert records. \<^verbatim>\<open>sort()\<close> is the
  engine's, the parameter \<open>order\<close>: it compares the values as strings, and it throws,
  \<open>None\<close>, when it meets an object that cannot be converted to one.
\<close>

definition readTimestamp :: "json \<Rightarrow> lookup option" where
  "readTimestamp x = (case getProp x ''timestamp'' of Throws \<Rightarrow> None | r \<Rightarrow> Some r)"

fun truthyLookup :: "lookup \<Rightarrow> bool" where
  "truthyLookup (Value v) = truthy v"
| "truthyLookup _ = False"

definition getStorageStats ::
  "(cell \<Rightarrow> nat) \<Rightarrow> (lookup list \<Rightarrow> lookup list option) \<Rightarrow> store \<Rightarrow> StorageStats option" where
  "getStorageStats bytes order s =
     (let activeAlerts = getAllAlerts s;
          archivedAlerts = getArchivedAlerts s;
          allAlerts = activeAlerts @ archivedAlerts
      in case arrayMap readTimestamp allAlerts of
           None \<Rightarrow> None
         | Some unsorted \<Rightarrow>
             (case order unsorted of
                None \<Rightarrow> None
              | Some timestamps \<Rightarrow>
                  Some
                    \<lparr>totalAlerts = length allAlerts,
                     panicAlerts =
                       length (filter (\<lambda>alert. getProp alert ''status'' = Value (JStr ''PANIC'')) allAlerts),
                     fallAlerts =
                       length (filter (\<lambda>alert. getProp alert ''status'' = Value (JStr ''FALL'')) allAlerts),
                     emailsSent =
                       length (filter (\<lambda>alert. truthyLookup (getProp alert ''emailSent'')) allAlerts),
                     archivedAlerts = length archivedAlerts,
                     oldestAlert = (if length timestamps > 0 then hd timestamps else Value JNull),
                     newestAlert = (if length timestamps > 0 then last timestamps else Value JNull),
                     storageSize = calculateStorageSize bytes s\<rparr>))"

text \<open>An entry of an object as \<^verbatim>\<open>JSON.stringify\<close> writes it: none for \<^verbatim>\<open>undefined\<close>.\<close>

fun entry :: "string \<Rightarrow> lookup \<Rightarrow> (string \<times> json) list" where
  "entry k (Value v) = [(k, v)]"
| "entry k _ = []"

definition statsJson :: "StorageStats \<Rightarrow> json" where
  "statsJson st =
     JObj ([(''totalAlerts'', JNum (real (totalAlerts st))),
            (''panicAlerts'', JNum (real (panicAlerts st))),
            (''fallAlerts'', JNum (real (fallAlerts st))),
            (''emailsSent'', JNum (real (emailsSent st))),
            (''archivedAlerts'', JNum (real (archivedAlerts st)))]
           @ entry ''oldestAlert'' (oldestAlert st)
           @ entry ''newestAlert'' (newestAlert st)
           @ [(''storageSize'', JNum (real (storageSize st)))])"

text \<open>
  \<^verbatim>\<open>exportAlerts\<close> returns the document it serialises, or throws what
  \<^verbatim>\<open>getStorageStats\<close> throws; \<open>exportDate\<close> is \<^verbatim>\<open>new Date().toISOString()\<close> at the
  call.
\<close>

definition exportAlerts ::
  "string \<Rightarrow> (cell \<Rightarrow> nat) \<Rightarrow> (lookup list \<Rightarrow> lookup list option) \<Rightarrow> bool \<Rightarrow> store \<Rightarrow>
   json option" where
  "exportAlerts exportDate bytes order includeArchived s =
     (let activeAlerts = getAllAlerts s;
          archivedAlerts = (if includeArchived then getArchivedAlerts s else [])
      in case getStorageStats bytes order s of
           None \<Rightarrow> None
         | Some stats \<Rightarrow>
             Some (JObj [(''exportDate'', JStr exportDate),
                         (''activeAlerts'', JArr activeAlerts),
                         (''archivedAlerts'', JArr archivedAlerts),
                         (''stats'', statsJson stats)]))"

text \<open>
  One of the two guarded writes of \<^verbatim>\<open>importAlerts\<close>:
  \<^verbatim>\<open>if (x && Array.isArray(x)) localStorage.setItem(key, JSON.stringify(x))\<close>.
\<close>

fun importField :: "quota \<Rightarrow> key \<Rightarrow> lookup \<Rightarrow> store \<Rightarrow> store option" where
  "importField q k (Value v) s =
     (if truthy v \<and> isArray v then setItem q k (elements v) s else Some s)"
| "importField q k _ s = Some s"

text \<open>
  \<^verbatim>\<open>importAlerts\<close> takes what \<^verbatim>\<open>JSON.parse\<close> makes of its argument: \<open>None\<close> when
  it throws a SyntaxError.
\<close>

definition importAlerts :: "quota \<Rightarrow> json option \<Rightarrow> store \<Rightarrow> bool \<times> store" where
  "importAlerts q jsonData s =
     (case jsonData of
        None \<Rightarrow> (False, s)
      | Some importData \<Rightarrow>
          (case getProp importData ''activeAlerts'' of
             Throws \<Rightarrow> (False, s)
           | activeField \<Rightarrow>
               (case importField q STORAGE_KEY activeField s of
                  None \<Rightarrow> (False, s)
                | Some s1 \<Rightarrow>
                    (case getProp importData ''archivedAlerts'' of
                       Throws \<Rightarrow> (False, s1)
                     | archivedField \<Rightarrow>
                         (case importField q ARCHIVED_KEY archivedField s1 of
                            None \<Rightarrow> (False, s1)
                          | Some s2 \<Rightarrow> (True, s2))))))"

text \<open>
  The guard of \<^verbatim>\<open>importAlerts\<close> as a property of the document: the field is there, it
  is truthy and it is an array.
\<close>

definition hasArrayField :: "json option \<Rightarrow> string \<Rightarrow> bool" where
  "hasArrayField jsonData name =
     (case jsonData of
        None \<Rightarrow> False
      | Some importData \<Rightarrow>
          (case getProp importData name of
             Value v \<Rightarrow> truthy v \<and> isArray v
           | _ \<Rightarrow> False))"

text \<open>The elements that a document brings: those of its two arrays.\<close>

definition fieldAlerts :: "json \<Rightarrow> string \<Rightarrow> json list" where
  "fieldAlerts importData name =
     (case getProp importData name of Value v \<Rightarrow> elements v | _ \<Rightarrow> [])"

definition imported :: "json option \<Rightarrow> json list" where
  "imported jsonData =
     (case jsonData of
        None \<Rightarrow> []
      | Some importData \<Rightarrow>
          fieldAlerts importData ''activeAlerts'' @ fieldAlerts importData ''archivedAlerts'')"

section \<open>The alert detector of the dashboard\<close>


definition alertIdOf :: "DeviceData \<Rightarrow> string" where
  "alertIdOf device = DeviceData.id' device @ ''-'' @ DeviceData.timestamp device"

definition buildAlert :: "(real \<Rightarrow> string) \<Rightarrow> DeviceData \<Rightarrow> AlertData" where
  "buildAlert str device =
     \<lparr>AlertData.id' = alertIdOf device,
      deviceId = DeviceData.id' device,
      AlertData.timestamp = DeviceData.timestamp device,
      AlertData.location = DeviceData.location device,
      AlertData.latitude = DeviceData.latitude device,
      AlertData.longitude = DeviceData.longitude device,
      status = (if panicstatus device then PANIC else FALL),
      AlertData.heartbeat = DeviceData.heartbeat device,
      coordinates = str (DeviceData.latitude device) @ '', '' @ str (DeviceData.longitude device),
      emailSent = False,
      archived = None,
      severity = None\<rparr>"





section \<open>Sequences of store operations\<close>

text \<open>
  The operations that change the store, apart from the import, which replaces a collection
  by whatever the document holds. A call comes with the quota and the calendar of its
  moment; \<open>run\<close> performs the calls in order.
\<close>

datatype storeOp =
    Submit AlertData
  | Archive "json list"
  | Delete string
  | Cleanup int
  | MarkEmailSent string
  | ClearActive
  | ClearArchived

fun perform :: "quota \<Rightarrow> calendar \<Rightarrow> storeOp \<Rightarrow> store \<Rightarrow> store" where
  "perform q cal (Submit alert) s = snd (saveAlert q alert s)"
| "perform q cal (Archive alerts) s = snd (archiveAlerts q alerts s)"
| "perform q cal (Delete alertId) s = snd (deleteAlert q alertId s)"
| "perform q cal (Cleanup daysToKeep) s = snd (cleanupOldAlerts q cal daysToKeep s)"
| "perform q cal (MarkEmailSent alertId) s = snd (markEmailSent q alertId s)"
| "perform q cal ClearActive s = snd (clearAllAlerts s)"
| "perform q cal ClearArchived s = snd (clearArchivedAlerts s)"

fun run :: "(quota \<times> calendar \<times> storeOp) list \<Rightarrow> store \<Rightarrow> store" where
  "run [] s = s"
| "run ((q, cal, op) # calls) s = run calls (perform q cal op s)"

text \<open>The elements that an operation brings into the store from outside.\<close>

fun brought :: "storeOp \<Rightarrow> json list" where
  "brought (Submit alert) = [JAlert (alert\<lparr>severity := Some (classifyAlertSeverity alert)\<rparr>)]"
| "brought (Archive alerts) = alerts"
| "brought _ = []"

text \<open>
  What the operations make of an element: they leave it, copy it with \<^verbatim>\<open>archived\<close>
  set, or set its \<^verbatim>\<open>emailSent\<close>. For two alert records that is to differ at most in
  these two flags.
\<close>

definition derived :: "json \<Rightarrow> json \<Rightarrow> bool" where
  "derived a b = (b = a \<or> b = archivedCopy a \<or> setEmailSent a = Some b)"

definition sameAlert :: "AlertData \<Rightarrow> AlertData \<Rightarrow> bool" where
  "sameAlert a b = (b = a\<lparr>archived := archived b, emailSent := emailSent b\<rparr>)"

definition everyAlert :: "store \<Rightarrow> json list" where
  "everyAlert s = getAllAlerts s @ getArchivedAlerts s"

text \<open>The alert records among the elements, and the identifiers that the elements have.\<close>

fun recordOf :: "json \<Rightarrow> AlertData option" where
  "recordOf (JAlert a) = Some a"
| "recordOf _ = None"

definition alertsOf :: "json list \<Rightarrow> AlertData list" where
  "alertsOf xs = List.map_filter recordOf xs"

fun idString :: "lookup \<Rightarrow> string option" where
  "idString (Value (JStr i)) = Some i"
| "idString _ = None"

definition idsOf :: "json list \<Rightarrow> string list" where
  "idsOf xs = List.map_filter (\<lambda>x. idString (getProp x ''id'')) xs"

definition hasId :: "string \<Rightarrow> json \<Rightarrow> bool" where
  "hasId alertId x = (getProp x ''id'' = Value (JStr alertId))"

section \<open>Example inputs\<close>

text \<open>
  A browser that accepts every write, one whose quota is used up for the archive, and one
  that refuses every write.
\<close>

definition acceptAll :: quota where
  "acceptAll k v = True"

definition refuseArchive :: quota where
  "refuseArchive k v = (k = STORAGE_KEY)"

definition quotaFull :: quota where
  "quotaFull k v = False"

text \<open>
  A calendar in UTC, where a day is 86400000 ms, on 2024-06-25 at 10:00:00; it reads three
  instants and no other string, it makes the epoch of \<^verbatim>\<open>null\<close> and an Invalid Date
  of every other value, and a date is at most 8640000000000000 ms from the epoch.
\<close>

definition utcParse :: "string \<Rightarrow> int option" where
  "utcParse ts =
     (if ts = ''2024-05-01T10:00:00Z'' then Some 1714557600000
      else if ts = ''2024-06-20T10:00:00Z'' then Some 1718877600000
      else if ts = ''2024-06-25T10:00:00Z'' then Some 1719309600000
      else None)"

fun utcNewDate :: "lookup \<Rightarrow> made" where
  "utcNewDate (Value (JStr ts)) = Made (utcParse ts)"
| "utcNewDate (Value JNull) = Made (Some 0)"
| "utcNewDate _ = Made None"

definition utcSetDateBack :: "int \<Rightarrow> int \<Rightarrow> int option" where
  "utcSetDateBack t d =
     (if \<bar>t - d * 86400000\<bar> \<le> 8640000000000000 then Some (t - d * 86400000) else None)"

definition utcCalendar :: calendar where
  "utcCalendar = \<lparr>newDate = utcNewDate, today = 1719309600000, setDateBack = utcSetDateBack\<rparr>"

definition showInt :: "real \<Rightarrow> string" where
  "showInt x = (if x = 12 then ''12'' else if x = 77 then ''77'' else ''0'')"

text \<open>
  A sort that puts the strings first, in their order, and keeps the rest as it is; it
  does not throw.
\<close>

fun textOf :: "lookup \<Rightarrow> string option" where
  "textOf (Value (JStr t)) = Some t"
| "textOf _ = None"

definition sortTexts :: "lookup list \<Rightarrow> lookup list option" where
  "sortTexts vs =
     Some (map (\<lambda>t. Value (JStr t)) (sort (List.map_filter textOf vs))
           @ filter (\<lambda>v. textOf v = None) vs)"

definition sampleAlert :: AlertData where
  "sampleAlert =
     \<lparr>AlertData.id' = ''band7-2024-05-01T10:00:00Z'', deviceId = ''band7'',
      AlertData.timestamp = ''2024-05-01T10:00:00Z'', AlertData.location = ''Ward 3'',
      AlertData.latitude = 12, AlertData.longitude = 77, status = FALL,
      AlertData.heartbeat = 121, coordinates = ''12, 77'', emailSent = False,
      archived = None, severity = None\<rparr>"

definition recentAlert :: AlertData where
  "recentAlert =
     \<lparr>AlertData.id' = ''band7-2024-06-20T10:00:00Z'', deviceId = ''band7'',
      AlertData.timestamp = ''2024-06-20T10:00:00Z'', AlertData.location = ''Ward 3'',
      AlertData.latitude = 12, AlertData.longitude = 77, status = PANIC,
      AlertData.heartbeat = 101, coordinates = ''12, 77'', emailSent = False,
      archived = None, severity = None\<rparr>"

text \<open>An alert whose timestamp is no date that the calendar reads.\<close>

definition undatedAlert :: AlertData where
  "undatedAlert =
     \<lparr>AlertData.id' = ''band9-01/05/2024 10:00'', deviceId = ''band9'',
      AlertData.timestamp = ''01/05/2024 10:00'', AlertData.location = ''Ward 5'',
      AlertData.latitude = 12, AlertData.longitude = 77, status = PANIC,
      AlertData.heartbeat = 130, coordinates = ''12, 77'', emailSent = False,
      archived = None, severity = Some CRITICAL\<rparr>"

definition sampleDevice :: DeviceData where
  "sampleDevice =
     \<lparr>DeviceData.id' = ''band7'', DeviceData.timestamp = ''2024-05-01T10:00:00Z'',
      DeviceData.location = ''Ward 3'', DeviceData.latitude = 12, DeviceData.longitude = 77,
      panicstatus = True, fallstatus = True, DeviceData.heartbeat = 95\<rparr>"

text \<open>
  A full active collection: a thousand alerts of one device, one a second, the newest
  first.
\<close>

definition twoDigits :: "nat \<Rightarrow> string" where
  "twoDigits k = [char_of (48 + k div 10), char_of (48 + k mod 10)]"

definition stampAt :: "nat \<Rightarrow> string" where
  "stampAt n =
     ''2024-06-01T'' @ twoDigits (9 + n div 3600) @ '':'' @ twoDigits (n div 60 mod 60) @ '':'' @
     twoDigits (n mod 60) @ ''Z''"

definition alertAt :: "nat \<Rightarrow> AlertData" where
  "alertAt n =
     \<lparr>AlertData.id' = ''band1-'' @ stampAt n, deviceId = ''band1'',
      AlertData.timestamp = stampAt n, AlertData.location = ''Ward 1'',
      AlertData.latitude = 12, AlertData.longitude = 77, status = PANIC,
      AlertData.heartbeat = 130, coordinates = ''12, 77'', emailSent = False,
      archived = None, severity = Some CRITICAL\<rparr>"

definition fullStore :: store where
  "fullStore =
     \<lparr>safetrack_critical_alerts = Holds (map (\<lambda>n. JAlert (alertAt n)) (rev [0..<1000])),
      safetrack_archived_alerts = Absent\<rparr>"

definition savedStore :: store where
  "savedStore =
     \<lparr>safetrack_critical_alerts = Holds [JAlert (sampleAlert\<lparr>severity := Some CRITICAL\<rparr>)],
      safetrack_archived_alerts = Absent\<rparr>"

definition archivedStore :: store where
  "archivedStore =
     \<lparr>safetrack_critical_alerts = Holds [],
      safetrack_archived_alerts =
        Holds [JAlert (sampleAlert\<lparr>severity := Some CRITICAL, archived := Some True\<rparr>)]\<rparr>"

definition fullArchive :: store where
  "fullArchive =
     \<lparr>safetrack_critical_alerts = Absent,
      safetrack_archived_alerts =
        Holds (map (\<lambda>n. JAlert ((alertAt n)\<lparr>archived := Some True\<rparr>)) (rev [0..<5000]))\<rparr>"

text \<open>A document that parses and holds neither collection as an array.\<close>

definition brokenDocument :: json where
  "brokenDocument = JObj [(''activeAlerts'', JStr ''n/a''), (''archivedAlerts'', JNum 5)]"

text \<open>
  A document whose active collection is an array with the element \<^verbatim>\<open>null\<close>, and the
  store after its import.
\<close>

definition nullDocument :: json where
  "nullDocument = JObj [(''activeAlerts'', JArr [JNull])]"

definition nullStore :: store where
  "nullStore = \<lparr>safetrack_critical_alerts = Holds [JNull], safetrack_archived_alerts = Absent\<rparr>"

text \<open>
  An alert is submitted, moved to the archive by a cleanup, and submitted again, as the
  next poll does when the device still reports the reading.
\<close>

definition resubmission :: "(quota \<times> calendar \<times> storeOp) list" where
  "resubmission =
     [(acceptAll, utcCalendar, Submit sampleAlert),
      (acceptAll, utcCalendar, Cleanup 30),
      (acceptAll, utcCalendar, Submit sampleAlert)]"

definition resubmittedStore :: store where
  "resubmittedStore =
     \<lparr>safetrack_critical_alerts = Holds [JAlert (sampleAlert\<lparr>severity := Some CRITICAL\<rparr>)],
      safetrack_archived_alerts =
        Holds [JAlert (sampleAlert\<lparr>severity := Some CRITICAL, archived := Some True\<rparr>)]\<rparr>"

text \<open>
  An active collection with a recent and an old alert, the store after its cleanup, and
  an active collection with an old alert and one without a date.
\<close>

definition mixedStore :: store where
  "mixedStore =
     \<lparr>safetrack_critical_alerts =
        Holds [JAlert (recentAlert\<lparr>severity := Some HIGH\<rparr>),
               JAlert (sampleAlert\<lparr>severity := Some CRITICAL\<rparr>)],
      safetrack_archived_alerts = Absent\<rparr>"

definition cleanedStore :: store where
  "cleanedStore =
     \<lparr>safetrack_critical_alerts = Holds [JAlert (recentAlert\<lparr>severity := Some HIGH\<rparr>)],
      safetrack_archived_alerts =
        Holds [JAlert (sampleAlert\<lparr>severity := Some CRITICAL, archived := Some True\<rparr>)]\<rparr>"

text \<open>
  A store with two active alerts and an archived one, a count of the bytes of a stored
  array, and the document that \<^verbatim>\<open>exportAlerts(true)\<close> makes of the store at
  2024-06-25T10:00:00.000Z.
\<close>

definition exportedStore :: store where
  "exportedStore =
     \<lparr>safetrack_critical_alerts =
        Holds [JAlert (recentAlert\<lparr>severity := Some HIGH\<rparr>),
               JAlert (sampleAlert\<lparr>severity := Some CRITICAL\<rparr>)],
      safetrack_archived_alerts = Holds [JAlert (undatedAlert\<lparr>archived := Some True\<rparr>)]\<rparr>"

definition blobSize :: "cell \<Rightarrow> nat" where
  "blobSize c = (case c of Holds xs \<Rightarrow> 2 + 400 * length xs | _ \<Rightarrow> 0)"

definition exportedDocument :: json where
  "exportedDocument =
     JObj [(''exportDate'', JStr ''2024-06-25T10:00:00.000Z''),
           (''activeAlerts'',
              JArr [JAlert (recentAlert\<lparr>severity := Some HIGH\<rparr>),
                    JAlert (sampleAlert\<lparr>severity := Some CRITICAL\<rparr>)]),
           (''archivedAlerts'', JArr [JAlert (undatedAlert\<lparr>archived := Some True\<rparr>)]),
           (''stats'',
              JObj [(''totalAlerts'', JNum 3), (''panicAlerts'', JNum 2), (''fallAlerts'', JNum 1),
                    (''emailsSent'', JNum 0), (''archivedAlerts'', JNum 1),
                    (''oldestAlert'', JStr ''01/05/2024 10:00''),
                    (''newestAlert'', JStr ''2024-06-20T10:00:00Z''),
                    (''storageSize'', JNum 1204)])]"

definition undatedStore :: store where
  "undatedStore =
     \<lparr>safetrack_critical_alerts =
        Holds [JAlert undatedAlert, JAlert (sampleAlert\<lparr>severity := Some CRITICAL\<rparr>)],
      safetrack_archived_alerts = Absent\<rparr>"

section \<open>Reading and writing the two keys\<close>

lemma getAllAlerts_upd_active [simp]:
  "getAllAlerts (s\<lparr>safetrack_critical_alerts := c\<rparr>) = parseStored c"
  by (simp add: getAllAlerts_def)

lemma getAllAlerts_upd_archived [simp]:
  "getAllAlerts (s\<lparr>safetrack_archived_alerts := c\<rparr>) = getAllAlerts s"
  by (simp add: getAllAlerts_def)

lemma getArchivedAlerts_upd_archived [simp]:
  "getArchivedAlerts (s\<lparr>safetrack_archived_alerts := c\<rparr>) = parseStored c"
  by (simp add: getArchivedAlerts_def)

lemma getArchivedAlerts_upd_active [simp]:
  "getArchivedAlerts (s\<lparr>safetrack_critical_alerts := c\<rparr>) = getArchivedAlerts s"
  by (simp add: getArchivedAlerts_def)

lemma getAllAlerts_emptyStore [simp]: "getAllAlerts emptyStore = []"
  by (simp add: getAllAlerts_def emptyStore_def)

lemma getArchivedAlerts_emptyStore [simp]: "getArchivedAlerts emptyStore = []"
  by (simp add: getArchivedAlerts_def emptyStore_def)

lemma MAX_ACTIVE_pos: "0 < MAX_ACTIVE_ALERTS"
  by (simp add: MAX_ACTIVE_ALERTS_def)

lemma MAX_ACTIVE_value: "MAX_ACTIVE_ALERTS = 1000"
  by (simp add: MAX_ACTIVE_ALERTS_def)

lemma MAX_ARCHIVED_value: "MAX_ARCHIVED_ALERTS = 5000"
  by (simp add: MAX_ARCHIVED_ALERTS_def)

section \<open>Reading the elements\<close>

lemma entryOf_not_Throws [simp]: "entryOf kvs name \<noteq> Throws"
  by (simp add: entryOf_def split: option.splits)

lemma getProp_Throws: "getProp x name = Throws \<longleftrightarrow> x = JNull"
  by (cases x) auto

lemma entryOf_id [simp]: "entryOf (fieldsOf a) ''id'' = Value (JStr (AlertData.id' a))"
  by (simp add: entryOf_def fieldsOf_def split: option.splits)

lemma entryOf_timestamp [simp]:
  "entryOf (fieldsOf a) ''timestamp'' = Value (JStr (AlertData.timestamp a))"
  by (simp add: entryOf_def fieldsOf_def split: option.splits)

lemma entryOf_severity:
  "entryOf (fieldsOf a) ''severity'' =
     (case severity a of None \<Rightarrow> Undefined | Some v \<Rightarrow> Value (JStr (severityName v)))"
  by (simp add: entryOf_def fieldsOf_def split: option.splits)

lemma hasId_JAlert [simp]: "hasId alertId (JAlert a) \<longleftrightarrow> AlertData.id' a = alertId"
  by (simp add: hasId_def)

lemma hasId_JNull [simp]: "\<not> hasId alertId JNull"
  by (simp add: hasId_def)

lemma idEquals_cases:
  "idEquals alertId x = (if x = JNull then None else Some (hasId alertId x))"
  using getProp_Throws[of x "''id''"]
  by (cases "getProp x ''id''") (auto simp: idEquals_def hasId_def)

lemma idDiffers_cases:
  "idDiffers alertId x = (if x = JNull then None else Some (\<not> hasId alertId x))"
  using getProp_Throws[of x "''id''"]
  by (cases "getProp x ''id''") (auto simp: idDiffers_def hasId_def)

lemma arrayFilter_cases:
  "arrayFilter p xs =
     (if list_ex (\<lambda>x. p x = None) xs then None else Some (filter (\<lambda>x. p x = Some True) xs))"
  by (induction xs) (auto split: option.splits)

lemma arrayFilter_idDiffers:
  "arrayFilter (idDiffers alertId) xs =
     (if JNull \<in> set xs then None else Some (filter (\<lambda>x. \<not> hasId alertId x) xs))"
proof -
  have "list_ex (\<lambda>x. idDiffers alertId x = None) xs \<longleftrightarrow> JNull \<in> set xs"
    by (auto simp: list_ex_iff idDiffers_cases split: if_splits)
  moreover have "JNull \<notin> set xs \<Longrightarrow>
      filter (\<lambda>x. idDiffers alertId x = Some True) xs = filter (\<lambda>x. \<not> hasId alertId x) xs"
    by (rule filter_cong) (auto simp: idDiffers_cases)
  ultimately show ?thesis
    by (simp add: arrayFilter_cases)
qed

lemma arraySome_idEquals:
  "arraySome (idEquals alertId) xs = Some False \<longleftrightarrow>
     JNull \<notin> set xs \<and> \<not> list_ex (hasId alertId) xs"
  by (induction xs) (auto simp: idEquals_cases)



lemma arrayFindIndex_idEquals:
  "arrayFindIndex (idEquals alertId) xs = Some (Some k) \<Longrightarrow> k < length xs \<and> hasId alertId (xs ! k)"
  by (induction xs arbitrary: k) (auto simp: idEquals_cases split: if_splits)

text \<open>What \<^verbatim>\<open>archiveAlerts\<close> returns, by the outcome of its one write.\<close>

lemma archiveAlerts_cases:
  "archiveAlerts q alerts s =
     (if q ARCHIVED_KEY (take MAX_ARCHIVED_ALERTS (map archivedCopy alerts @ getArchivedAlerts s))
      then (True, s\<lparr>safetrack_archived_alerts :=
                       Holds (take MAX_ARCHIVED_ALERTS (map archivedCopy alerts @ getArchivedAlerts s))\<rparr>)
      else (False, s))"
  by (simp add: archiveAlerts_def setItem_def Let_def del: take_append)

lemma archiveAlerts_active [simp]:
  "getAllAlerts (snd (archiveAlerts q alerts s)) = getAllAlerts s"
  by (simp add: archiveAlerts_cases del: take_append)

section \<open>Submitting an alert\<close>

lemma saveAlert_duplicate:
  assumes "list_ex (hasId (AlertData.id' alert)) (getAllAlerts s)"
  shows "saveAlert q alert s = (False, s)"
proof (cases "arraySome (idEquals (AlertData.id' alert)) (getAllAlerts s)")
  case None
  then show ?thesis by (simp add: saveAlert_def)
next
  case (Some isDuplicate)
  have "isDuplicate"
    using Some assms arraySome_idEquals[of "AlertData.id' alert" "getAllAlerts s"]
    by (cases isDuplicate) simp_all
  with Some show ?thesis by (simp add: saveAlert_def)
qed

lemma saveAlert_accepted:
  assumes "saveAlert q alert s = (True, s')"
  shows "\<not> list_ex (hasId (AlertData.id' alert)) (getAllAlerts s)"
    and "JNull \<notin> set (getAllAlerts s)"
    and "getAllAlerts s' =
           take MAX_ACTIVE_ALERTS
             (JAlert (alert\<lparr>severity := Some (classifyAlertSeverity alert)\<rparr>) # getAllAlerts s)"
proof -
  have found: "arraySome (idEquals (AlertData.id' alert)) (getAllAlerts s) = Some False"
    using assms
    by (cases "arraySome (idEquals (AlertData.id' alert)) (getAllAlerts s)")
       (auto simp: saveAlert_def split: if_splits)
  then show "\<not> list_ex (hasId (AlertData.id' alert)) (getAllAlerts s)"
    and "JNull \<notin> set (getAllAlerts s)"
    by (simp_all add: arraySome_idEquals)
  show "getAllAlerts s' =
           take MAX_ACTIVE_ALERTS
             (JAlert (alert\<lparr>severity := Some (classifyAlertSeverity alert)\<rparr>) # getAllAlerts s)"
    using assms found
    by (auto simp: saveAlert_def Let_def setItem_def split: if_splits)
qed

lemma saveAlert_accepted_head:
  assumes "saveAlert q alert s = (True, s')"
  shows "getAllAlerts s' =
           JAlert (alert\<lparr>severity := Some (classifyAlertSeverity alert)\<rparr>) #
           take (MAX_ACTIVE_ALERTS - 1) (getAllAlerts s)"
  using saveAlert_accepted(3)[OF assms] MAX_ACTIVE_pos
  by (simp add: take_Cons')

lemma saveAlert_accepted_filter:
  assumes "saveAlert q alert s = (True, s')"
  shows "filter (hasId (AlertData.id' alert)) (getAllAlerts s') =
           [JAlert (alert\<lparr>severity := Some (classifyAlertSeverity alert)\<rparr>)]"
proof -
  have "\<forall>e \<in> set (getAllAlerts s). \<not> hasId (AlertData.id' alert) e"
    using saveAlert_accepted(1)[OF assms] by (simp add: list_ex_iff)
  then have "\<forall>e \<in> set (take (MAX_ACTIVE_ALERTS - 1) (getAllAlerts s)).
               \<not> hasId (AlertData.id' alert) e"
    by (meson in_set_takeD)
  then have "filter (hasId (AlertData.id' alert))
               (take (MAX_ACTIVE_ALERTS - 1) (getAllAlerts s)) = []"
    by (simp add: filter_empty_conv)
  then show ?thesis
    by (simp add: saveAlert_accepted_head[OF assms])
qed

lemma sampleAlert_saved:
  "saveAlert acceptAll sampleAlert emptyStore = (True, savedStore)"
  by (simp add: saveAlert_def acceptAll_def sampleAlert_def emptyStore_def getAllAlerts_def
      setItem_def MAX_ACTIVE_ALERTS_def classifyAlertSeverity_def savedStore_def)

text \<open>
  C1. A candidate whose \<^verbatim>\<open>id\<close> equals the \<^verbatim>\<open>id\<close> of an element of the active collection
  is rejected: \<^verbatim>\<open>saveAlert\<close> returns \<^verbatim>\<open>false\<close> and the store, active and archived, is
  the one before the call. Hence, once a record has been accepted, a second submission
  with the same \<^verbatim>\<open>id\<close> returns \<^verbatim>\<open>false\<close>, changes nothing, and the active collection
  holds exactly one element with that \<^verbatim>\<open>id\<close>. The alerts that the detector builds from
  two readings with the same device id and timestamp have the same \<^verbatim>\<open>id\<close>.
\<close>

theorem saveAlert_dedup:
  "(list_ex (hasId (AlertData.id' alert)) (getAllAlerts s) \<longrightarrow>
      saveAlert q alert s = (False, s))
   \<and> (saveAlert q alert s = (True, s1) \<and> AlertData.id' again = AlertData.id' alert \<longrightarrow>
        saveAlert q2 again s1 = (False, s1)
        \<and> length (filter (hasId (AlertData.id' alert)) (getAllAlerts s1)) = 1)
   \<and> (DeviceData.id' device = DeviceData.id' device2
        \<and> DeviceData.timestamp device = DeviceData.timestamp device2 \<longrightarrow>
        AlertData.id' (buildAlert str device) = AlertData.id' (buildAlert str2 device2))"
proof (intro conjI impI)
  assume "list_ex (hasId (AlertData.id' alert)) (getAllAlerts s)"
  then show "saveAlert q alert s = (False, s)"
    by (rule saveAlert_duplicate)
next
  assume "DeviceData.id' device = DeviceData.id' device2
        \<and> DeviceData.timestamp device = DeviceData.timestamp device2"
  then show "AlertData.id' (buildAlert str device) = AlertData.id' (buildAlert str2 device2)"
    by (simp add: buildAlert_def alertIdOf_def)
next
  assume both: "saveAlert q alert s = (True, s1) \<and> AlertData.id' again = AlertData.id' alert"
  then have acc: "saveAlert q alert s = (True, s1)"
    and same: "AlertData.id' again = AlertData.id' alert"
    by simp_all
  have "list_ex (hasId (AlertData.id' again)) (getAllAlerts s1)"
    by (simp add: saveAlert_accepted_head[OF acc] same)
  then show "saveAlert q2 again s1 = (False, s1)"
    by (rule saveAlert_duplicate)
  show "length (filter (hasId (AlertData.id' alert)) (getAllAlerts s1)) = 1"
    by (simp add: saveAlert_accepted_filter[OF acc])
qed

theorem saveAlert_dedup_witness:
  "list_ex (hasId (AlertData.id' sampleAlert)) (getAllAlerts savedStore)
   \<and> saveAlert acceptAll sampleAlert emptyStore = (True, savedStore)
   \<and> saveAlert refuseArchive sampleAlert savedStore = (False, savedStore)
   \<and> length (filter (hasId (AlertData.id' sampleAlert)) (getAllAlerts savedStore)) = 1
   \<and> AlertData.id' (buildAlert showInt sampleDevice) =
       AlertData.id' (buildAlert showInt (sampleDevice\<lparr>DeviceData.heartbeat := 130\<rparr>))"
proof -
  have known: "list_ex (hasId (AlertData.id' sampleAlert)) (getAllAlerts savedStore)"
    by (simp add: savedStore_def getAllAlerts_def)
  have "saveAlert refuseArchive sampleAlert savedStore = (False, savedStore)"
    using saveAlert_dedup [where alert = sampleAlert and s = savedStore and q = refuseArchive]
      known
    by blast
  moreover have "saveAlert refuseArchive sampleAlert savedStore = (False, savedStore)
      \<and> length (filter (hasId (AlertData.id' sampleAlert)) (getAllAlerts savedStore)) = 1"
    using saveAlert_dedup [where alert = sampleAlert and s = emptyStore and q = acceptAll
        and ?s1.0 = savedStore and again = sampleAlert and ?q2.0 = refuseArchive]
      sampleAlert_saved
    by blast
  moreover have "AlertData.id' (buildAlert showInt sampleDevice) =
       AlertData.id' (buildAlert showInt (sampleDevice\<lparr>DeviceData.heartbeat := 130\<rparr>))"
    using saveAlert_dedup [where device = sampleDevice
        and ?device2.0 = "sampleDevice\<lparr>DeviceData.heartbeat := 130\<rparr>"
        and str = showInt and ?str2.0 = showInt]
    by simp
  ultimately show ?thesis
    using known sampleAlert_saved by simp
qed

section \<open>Where the elements of a store come from\<close>

lemma derived_refl [simp]: "derived a a"
  by (simp add: derived_def)

lemma derived_archivedCopy [simp]: "derived a (archivedCopy a)"
  by (simp add: derived_def)

lemma derived_setEmailSent: "setEmailSent a = Some b \<Longrightarrow> derived a b"
  by (simp add: derived_def)

lemma derived_archived_record [simp]: "derived (JAlert a) (JAlert (a\<lparr>archived := Some True\<rparr>))"
  by (simp add: derived_def)

lemma archiveAlerts_archived_subset:
  "set (getArchivedAlerts (snd (archiveAlerts q alerts s)))
     \<subseteq> archivedCopy ` set alerts \<union> set (getArchivedAlerts s)"
proof (cases "fst (archiveAlerts q alerts s)")
  case True
  then have "getArchivedAlerts (snd (archiveAlerts q alerts s)) =
      take MAX_ARCHIVED_ALERTS (map archivedCopy alerts @ getArchivedAlerts s)"
    by (simp add: archiveAlerts_cases del: take_append split: if_splits)
  then show ?thesis
    using set_take_subset[of MAX_ARCHIVED_ALERTS "map archivedCopy alerts @ getArchivedAlerts s"]
    by (simp del: take_append)
next
  case False
  then have "snd (archiveAlerts q alerts s) = s"
    by (simp add: archiveAlerts_cases del: take_append split: if_splits)
  then show ?thesis by auto
qed

lemma saveAlert_cases:
  "saveAlert q alert s =
     (if JNull \<in> set (getAllAlerts s) \<or> list_ex (hasId (AlertData.id' alert)) (getAllAlerts s)
      then (False, s)
      else if MAX_ACTIVE_ALERTS \<le> length (getAllAlerts s)
      then (if q STORAGE_KEY (take MAX_ACTIVE_ALERTS
                  (JAlert (alert\<lparr>severity := Some (classifyAlertSeverity alert)\<rparr>) # getAllAlerts s))
            then (True, (snd (archiveAlerts q (drop MAX_ACTIVE_ALERTS
                     (JAlert (alert\<lparr>severity := Some (classifyAlertSeverity alert)\<rparr>) # getAllAlerts s)) s))
                   \<lparr>safetrack_critical_alerts := Holds (take MAX_ACTIVE_ALERTS
                     (JAlert (alert\<lparr>severity := Some (classifyAlertSeverity alert)\<rparr>) # getAllAlerts s))\<rparr>)
            else (False, snd (archiveAlerts q (drop MAX_ACTIVE_ALERTS
                     (JAlert (alert\<lparr>severity := Some (classifyAlertSeverity alert)\<rparr>) # getAllAlerts s)) s)))
      else (if q STORAGE_KEY
                 (JAlert (alert\<lparr>severity := Some (classifyAlertSeverity alert)\<rparr>) # getAllAlerts s)
            then (True, s\<lparr>safetrack_critical_alerts :=
                   Holds (JAlert (alert\<lparr>severity := Some (classifyAlertSeverity alert)\<rparr>) # getAllAlerts s)\<rparr>)
            else (False, s)))"
proof (cases "arraySome (idEquals (AlertData.id' alert)) (getAllAlerts s)")
  case None
  then have c: "JNull \<in> set (getAllAlerts s) \<or> list_ex (hasId (AlertData.id' alert)) (getAllAlerts s)"
    using arraySome_idEquals[of "AlertData.id' alert" "getAllAlerts s"] by auto
  show ?thesis
    by (subst if_P[OF c]) (simp add: saveAlert_def None)
next
  case (Some isDuplicate)
  show ?thesis
  proof (cases isDuplicate)
    case True
    then have c: "JNull \<in> set (getAllAlerts s) \<or> list_ex (hasId (AlertData.id' alert)) (getAllAlerts s)"
      using Some arraySome_idEquals[of "AlertData.id' alert" "getAllAlerts s"] by auto
    show ?thesis
      by (subst if_P[OF c]) (simp add: saveAlert_def Some True)
  next
    case False
    then have c: "\<not> (JNull \<in> set (getAllAlerts s)
                \<or> list_ex (hasId (AlertData.id' alert)) (getAllAlerts s))"
      using Some arraySome_idEquals[of "AlertData.id' alert" "getAllAlerts s"] by auto
    show ?thesis
      by (subst if_not_P[OF c]) (simp add: saveAlert_def Let_def setItem_def Some False)
  qed
qed

lemma saveAlert_rejected_active:
  assumes "\<not> fst (saveAlert q alert s)"
  shows "getAllAlerts (snd (saveAlert q alert s)) = getAllAlerts s"
proof (cases "JNull \<in> set (getAllAlerts s)
              \<or> list_ex (hasId (AlertData.id' alert)) (getAllAlerts s)")
  case True
  have "saveAlert q alert s = (False, s)"
    by (subst saveAlert_cases, subst if_P[OF True], rule refl)
  then show ?thesis by simp
next
  case False
  have "saveAlert q alert s =
     (if MAX_ACTIVE_ALERTS \<le> length (getAllAlerts s)
      then (if q STORAGE_KEY (take MAX_ACTIVE_ALERTS
                  (JAlert (alert\<lparr>severity := Some (classifyAlertSeverity alert)\<rparr>) # getAllAlerts s))
            then (True, (snd (archiveAlerts q (drop MAX_ACTIVE_ALERTS
                     (JAlert (alert\<lparr>severity := Some (classifyAlertSeverity alert)\<rparr>) # getAllAlerts s)) s))
                   \<lparr>safetrack_critical_alerts := Holds (take MAX_ACTIVE_ALERTS
                     (JAlert (alert\<lparr>severity := Some (classifyAlertSeverity alert)\<rparr>) # getAllAlerts s))\<rparr>)
            else (False, snd (archiveAlerts q (drop MAX_ACTIVE_ALERTS
                     (JAlert (alert\<lparr>severity := Some (classifyAlertSeverity alert)\<rparr>) # getAllAlerts s)) s)))
      else (if q STORAGE_KEY
                 (JAlert (alert\<lparr>severity := Some (classifyAlertSeverity alert)\<rparr>) # getAllAlerts s)
            then (True, s\<lparr>safetrack_critical_alerts :=
                   Holds (JAlert (alert\<lparr>severity := Some (classifyAlertSeverity alert)\<rparr>) # getAllAlerts s)\<rparr>)
            else (False, s)))"
    by (subst saveAlert_cases, subst if_not_P[OF False], rule refl)
  with assms show ?thesis
    by (simp split: if_splits)
qed

lemma saveAlert_active_subset:
  "set (getAllAlerts (snd (saveAlert q alert s)))
     \<subseteq> insert (JAlert (alert\<lparr>severity := Some (classifyAlertSeverity alert)\<rparr>))
               (set (getAllAlerts s))"
proof (cases "fst (saveAlert q alert s)")
  case True
  then have "saveAlert q alert s = (True, snd (saveAlert q alert s))"
    by (simp add: prod_eq_iff)
  from saveAlert_accepted(3)[OF this] show ?thesis
    using set_take_subset[of MAX_ACTIVE_ALERTS
        "JAlert (alert\<lparr>severity := Some (classifyAlertSeverity alert)\<rparr>) # getAllAlerts s"]
    by simp
next
  case False
  then show ?thesis
    by (auto simp: saveAlert_rejected_active)
qed

lemma saveAlert_archived_subset:
  "set (getArchivedAlerts (snd (saveAlert q alert s)))
     \<subseteq> archivedCopy `
           insert (JAlert (alert\<lparr>severity := Some (classifyAlertSeverity alert)\<rparr>))
             (set (getAllAlerts s))
         \<union> set (getArchivedAlerts s)"
proof -
  let ?a = "JAlert (alert\<lparr>severity := Some (classifyAlertSeverity alert)\<rparr>)"
  let ?over = "drop MAX_ACTIVE_ALERTS (?a # getAllAlerts s)"
  have d: "getArchivedAlerts (snd (saveAlert q alert s)) = getArchivedAlerts s
        \<or> getArchivedAlerts (snd (saveAlert q alert s)) =
           getArchivedAlerts (snd (archiveAlerts q ?over s))"
    by (simp add: saveAlert_cases)
  have o: "set ?over \<subseteq> insert ?a (set (getAllAlerts s))"
    using set_drop_subset[of MAX_ACTIVE_ALERTS "?a # getAllAlerts s"] by simp
  from d show ?thesis
  proof
    assume "getArchivedAlerts (snd (saveAlert q alert s)) = getArchivedAlerts s"
    then show ?thesis by auto
  next
    assume e: "getArchivedAlerts (snd (saveAlert q alert s)) =
               getArchivedAlerts (snd (archiveAlerts q ?over s))"
    have "archivedCopy ` set ?over \<subseteq> archivedCopy ` insert ?a (set (getAllAlerts s))"
      using o by (rule image_mono)
    then show ?thesis
      unfolding e using archiveAlerts_archived_subset[of q ?over s] by blast
  qed
qed

lemma deleteAlert_cases:
  "deleteAlert q alertId s =
     (if JNull \<in> set (getAllAlerts s) then (False, s)
      else if q STORAGE_KEY (filter (\<lambda>x. \<not> hasId alertId x) (getAllAlerts s))
      then (True, s\<lparr>safetrack_critical_alerts :=
                       Holds (filter (\<lambda>x. \<not> hasId alertId x) (getAllAlerts s))\<rparr>)
      else (False, s))"
  by (simp add: deleteAlert_def arrayFilter_idDiffers setItem_def Let_def)

lemma deleteAlert_archived [simp]:
  "getArchivedAlerts (snd (deleteAlert q alertId s)) = getArchivedAlerts s"
  by (simp add: deleteAlert_cases)

lemma deleteAlert_active_subset:
  "set (getAllAlerts (snd (deleteAlert q alertId s))) \<subseteq> set (getAllAlerts s)"
  by (auto simp: deleteAlert_cases)

lemma dateOf_JNull [simp]: "dateOf cal JNull = Raised"
  by (simp add: dateOf_def)

lemma arrayFilter_notOlder:
  "arrayFilter (notOlder cal cutoff) xs =
     (if list_ex (\<lambda>x. dateOf cal x = Raised) xs then None
      else Some (filter (keptBy cal cutoff) xs))"
proof -
  have "\<And>x. notOlder cal cutoff x = None \<longleftrightarrow> dateOf cal x = Raised"
    by (simp add: notOlder_def split: made.splits)
  then show ?thesis
    by (simp add: arrayFilter_cases keptBy_def[abs_def])
qed

lemma arrayFilter_older:
  "arrayFilter (older cal cutoff) xs =
     (if list_ex (\<lambda>x. dateOf cal x = Raised) xs then None
      else Some (filter (oldBy cal cutoff) xs))"
proof -
  have "\<And>x. older cal cutoff x = None \<longleftrightarrow> dateOf cal x = Raised"
    by (simp add: older_def split: made.splits)
  then show ?thesis
    by (simp add: arrayFilter_cases oldBy_def[abs_def])
qed

lemma cleanupOldAlerts_cases:
  "cleanupOldAlerts q cal daysToKeep s =
     (if list_ex (\<lambda>x. dateOf cal x = Raised) (getAllAlerts s) then (None, s)
      else if filter (oldBy cal (cutoffDate cal daysToKeep)) (getAllAlerts s) = []
      then (Some 0, s)
      else if q STORAGE_KEY (filter (keptBy cal (cutoffDate cal daysToKeep)) (getAllAlerts s))
      then (Some (length (filter (oldBy cal (cutoffDate cal daysToKeep)) (getAllAlerts s))),
            (snd (archiveAlerts q
                    (filter (oldBy cal (cutoffDate cal daysToKeep)) (getAllAlerts s)) s))
            \<lparr>safetrack_critical_alerts :=
                Holds (filter (keptBy cal (cutoffDate cal daysToKeep)) (getAllAlerts s))\<rparr>)
      else (None,
            snd (archiveAlerts q
                   (filter (oldBy cal (cutoffDate cal daysToKeep)) (getAllAlerts s)) s)))"
  by (simp add: cleanupOldAlerts_def arrayFilter_notOlder arrayFilter_older Let_def setItem_def)

lemma cleanupOldAlerts_active:
  "getAllAlerts (snd (cleanupOldAlerts q cal daysToKeep s)) = getAllAlerts s
   \<or> getAllAlerts (snd (cleanupOldAlerts q cal daysToKeep s)) =
      filter (keptBy cal (cutoffDate cal daysToKeep)) (getAllAlerts s)"
  by (simp add: cleanupOldAlerts_cases)

lemma cleanupOldAlerts_active_subset:
  "set (getAllAlerts (snd (cleanupOldAlerts q cal daysToKeep s))) \<subseteq> set (getAllAlerts s)"
  using cleanupOldAlerts_active[of q cal daysToKeep s] by auto

lemma cleanupOldAlerts_archived_subset:
  "set (getArchivedAlerts (snd (cleanupOldAlerts q cal daysToKeep s)))
     \<subseteq> archivedCopy ` set (getAllAlerts s) \<union> set (getArchivedAlerts s)"
proof -
  let ?old = "filter (oldBy cal (cutoffDate cal daysToKeep)) (getAllAlerts s)"
  have d: "getArchivedAlerts (snd (cleanupOldAlerts q cal daysToKeep s)) = getArchivedAlerts s
        \<or> getArchivedAlerts (snd (cleanupOldAlerts q cal daysToKeep s)) =
           getArchivedAlerts (snd (archiveAlerts q ?old s))"
    by (simp add: cleanupOldAlerts_cases)
  have o: "set ?old \<subseteq> set (getAllAlerts s)" by simp
  from d show ?thesis
  proof
    assume "getArchivedAlerts (snd (cleanupOldAlerts q cal daysToKeep s)) = getArchivedAlerts s"
    then show ?thesis by auto
  next
    assume e: "getArchivedAlerts (snd (cleanupOldAlerts q cal daysToKeep s)) =
           getArchivedAlerts (snd (archiveAlerts q ?old s))"
    have "archivedCopy ` set ?old \<subseteq> archivedCopy ` set (getAllAlerts s)"
      using o by (rule image_mono)
    then show ?thesis
      unfolding e using archiveAlerts_archived_subset[of q ?old s] by blast
  qed
qed

lemma markEmailSent_result:
  "snd (markEmailSent q alertId s) = s
   \<or> (\<exists>k marked. k < length (getAllAlerts s) \<and> hasId alertId (getAllAlerts s ! k)
        \<and> setEmailSent (getAllAlerts s ! k) = Some marked
        \<and> snd (markEmailSent q alertId s) =
            s\<lparr>safetrack_critical_alerts := Holds ((getAllAlerts s)[k := marked])\<rparr>)"
proof (cases "arrayFindIndex (idEquals alertId) (getAllAlerts s)")
  case None
  then show ?thesis by (simp add: markEmailSent_def)
next
  case (Some found)
  show ?thesis
  proof (cases found)
    case None
    with Some show ?thesis by (simp add: markEmailSent_def)
  next
    case (Some k)
    with \<open>arrayFindIndex (idEquals alertId) (getAllAlerts s) = Some found\<close>
    have f: "arrayFindIndex (idEquals alertId) (getAllAlerts s) = Some (Some k)" by simp
    from arrayFindIndex_idEquals[OF f] have k: "k < length (getAllAlerts s)"
      and h: "hasId alertId (getAllAlerts s ! k)" by simp_all
    show ?thesis
    proof (cases "setEmailSent (getAllAlerts s ! k)")
      case None
      with f show ?thesis by (simp add: markEmailSent_def)
    next
      case (Some marked)
      with f k h show ?thesis
        by (auto simp: markEmailSent_def setItem_def Let_def)
    qed
  qed
qed

lemma markEmailSent_archived [simp]:
  "getArchivedAlerts (snd (markEmailSent q alertId s)) = getArchivedAlerts s"
  using markEmailSent_result[of q alertId s] by auto

lemma markEmailSent_active_subset:
  "set (getAllAlerts (snd (markEmailSent q alertId s)))
     \<subseteq> set (getAllAlerts s) \<union> {b. \<exists>a \<in> set (getAllAlerts s). setEmailSent a = Some b}"
proof -
  from markEmailSent_result[of q alertId s] show ?thesis
  proof
    assume "snd (markEmailSent q alertId s) = s"
    then show ?thesis by auto
  next
    assume "\<exists>k marked. k < length (getAllAlerts s) \<and> hasId alertId (getAllAlerts s ! k)
        \<and> setEmailSent (getAllAlerts s ! k) = Some marked
        \<and> snd (markEmailSent q alertId s) =
            s\<lparr>safetrack_critical_alerts := Holds ((getAllAlerts s)[k := marked])\<rparr>"
    then obtain k marked where k: "k < length (getAllAlerts s)"
      and m: "setEmailSent (getAllAlerts s ! k) = Some marked"
      and r: "snd (markEmailSent q alertId s) =
            s\<lparr>safetrack_critical_alerts := Holds ((getAllAlerts s)[k := marked])\<rparr>"
      by blast
    have "set ((getAllAlerts s)[k := marked]) \<subseteq> insert marked (set (getAllAlerts s))"
      by (rule set_update_subset_insert)
    moreover have "getAllAlerts s ! k \<in> set (getAllAlerts s)" using k by simp
    ultimately show ?thesis
      using m unfolding r by auto
  qed
qed

lemma origin_from_parts:
  assumes "set xs \<subseteq> X" and "set ys \<subseteq> Y"
    and "\<And>b. b \<in> X \<union> Y \<Longrightarrow> \<exists>a \<in> S. derived a b"
  shows "set (xs @ ys) \<subseteq> {b. \<exists>a \<in> S. derived a b}"
  using assms by auto

lemma origin_perform:
  "set (everyAlert (perform q cal op s))
     \<subseteq> {b. \<exists>a \<in> set (everyAlert s) \<union> set (brought op). derived a b}"
proof (cases op)
  case (Submit alert)
  show ?thesis
    unfolding Submit everyAlert_def perform.simps
    by (rule origin_from_parts[OF saveAlert_active_subset saveAlert_archived_subset])
       (auto simp del: archivedCopy.simps intro: derived_refl derived_archivedCopy)
next
  case (Archive alerts)
  have "set (getAllAlerts (snd (archiveAlerts q alerts s))) \<subseteq> set (getAllAlerts s)"
    by simp
  then show ?thesis
    unfolding Archive everyAlert_def perform.simps
    by (rule origin_from_parts[OF _ archiveAlerts_archived_subset])
       (auto intro: derived_refl derived_archivedCopy)
next
  case (Delete alertId)
  have "set (getArchivedAlerts (snd (deleteAlert q alertId s))) \<subseteq> set (getArchivedAlerts s)"
    by simp
  then show ?thesis
    unfolding Delete everyAlert_def perform.simps
    by (rule origin_from_parts[OF deleteAlert_active_subset])
       (auto intro: derived_refl)
next
  case (Cleanup daysToKeep)
  show ?thesis
    unfolding Cleanup everyAlert_def perform.simps
    by (rule origin_from_parts[OF cleanupOldAlerts_active_subset cleanupOldAlerts_archived_subset])
       (auto intro: derived_refl derived_archivedCopy)
next
  case (MarkEmailSent alertId)
  have "set (getArchivedAlerts (snd (markEmailSent q alertId s))) \<subseteq> set (getArchivedAlerts s)"
    by simp
  then show ?thesis
    unfolding MarkEmailSent everyAlert_def perform.simps
    by (rule origin_from_parts[OF markEmailSent_active_subset])
       (auto intro: derived_refl derived_setEmailSent)
next
  case ClearActive
  then show ?thesis
    by (auto simp: everyAlert_def clearAllAlerts_def removeItem_def intro: derived_refl)
next
  case ClearArchived
  then show ?thesis
    by (auto simp: everyAlert_def clearArchivedAlerts_def removeItem_def intro: derived_refl)
qed

lemma sameAlert_refl [simp]: "sameAlert a a"
  by (simp add: sameAlert_def)

lemma sameAlert_fields:
  "sameAlert a b \<Longrightarrow>
     severity b = severity a \<and> AlertData.heartbeat b = AlertData.heartbeat a
     \<and> AlertData.id' b = AlertData.id' a"
  by (cases a, cases b) (simp add: sameAlert_def)

lemma derived_record:
  assumes "derived x (JAlert b)"
  shows "\<exists>a. x = JAlert a \<and> sameAlert a b"
proof -
  from assms consider "JAlert b = x" | "JAlert b = archivedCopy x" | "setEmailSent x = Some (JAlert b)"
    unfolding derived_def by blast
  then show ?thesis
  proof cases
    case 1
    then show ?thesis by auto
  next
    case 2
    then show ?thesis by (cases x) (auto simp: sameAlert_def)
  next
    case 3
    then show ?thesis by (cases x) (auto simp: sameAlert_def)
  qed
qed

lemma set_alertsOf: "set (alertsOf xs) = {a. JAlert a \<in> set xs}"
proof (induction xs)
  case Nil
  then show ?case by (simp add: alertsOf_def)
next
  case (Cons x xs)
  then show ?case
    by (cases x) (auto simp: alertsOf_def)
qed

lemma origin_records:
  assumes "b \<in> set (alertsOf (everyAlert (perform q cal op s)))"
  shows "\<exists>a \<in> set (alertsOf (everyAlert s @ brought op)). sameAlert a b"
proof -
  from assms have "JAlert b \<in> set (everyAlert (perform q cal op s))"
    by (simp add: set_alertsOf)
  then obtain x where x: "x \<in> set (everyAlert s) \<union> set (brought op)" and d: "derived x (JAlert b)"
    using origin_perform[of q cal op s] by blast
  from derived_record[OF d] obtain a where "x = JAlert a" and "sameAlert a b" by blast
  with x show ?thesis
    by (auto simp: set_alertsOf)
qed

lemma entryOf_Nil [simp]: "entryOf [] n = Undefined"
  by (simp add: entryOf_def)

lemma map_of_replace:
  "map_of (map (\<lambda>kv. if fst kv = k then (k, v) else kv) xs) n =
     (if n = k then (if map_of xs k = None then None else Some v) else map_of xs n)"
  by (induction xs) auto

lemma entryOf_setField:
  "entryOf (setField kvs k v) n = (if n = k then Value v else entryOf kvs n)"
proof (cases "k \<in> set (map fst kvs)")
  case True
  then have "map_of (rev kvs) k \<noteq> None" by (simp add: map_of_eq_None_iff)
  then show ?thesis
    using True map_of_replace[of k v "rev kvs" n]
    by (auto simp: entryOf_def setField_def rev_map)
next
  case False
  then show ?thesis
    by (simp add: entryOf_def setField_def)
qed

lemma entryOf_archived_record:
  "entryOf (fieldsOf (a\<lparr>archived := Some True\<rparr>)) n =
     (if n = ''archived'' then Value (JBool True) else entryOf (fieldsOf a) n)"
  by (cases "severity a"; cases "archived a") (simp_all add: entryOf_def fieldsOf_def)

lemma entryOf_emailSent_record:
  "entryOf (fieldsOf (a\<lparr>emailSent := True\<rparr>)) n =
     (if n = ''emailSent'' then Value (JBool True) else entryOf (fieldsOf a) n)"
  by (cases "severity a"; cases "archived a") (simp_all add: entryOf_def fieldsOf_def)

lemma entryOf_zip_index:
  "entryOf (zip (map showNat [0..<length xs]) ys) n = Undefined
   \<or> (\<exists>k. n = showNat k)"
proof (cases "map_of (rev (zip (map showNat [0..<length xs]) ys)) n")
  case None
  then show ?thesis by (simp add: entryOf_def)
next
  case (Some v)
  then have "(n, v) \<in> set (zip (map showNat [0..<length xs]) ys)"
    using map_of_SomeD[of "rev (zip (map showNat [0..<length xs]) ys)" n v] by simp
  then have "n \<in> set (map showNat [0..<length xs])"
    by (rule set_zip_leftD)
  then show ?thesis by auto
qed

lemma showNat_digits: "c \<in> set (showNat n) \<Longrightarrow> c \<in> char_of ` {48..<58::nat}"
proof (induction n rule: showNat.induct)
  case (1 n)
  show ?case
  proof (cases "n < 10")
    case True
    with "1.prems" have "c = char_of (48 + n)"
      by (simp add: showNat.simps[of n])
    with True show ?thesis by auto
  next
    case False
    with "1.prems" have "c \<in> set (showNat (n div 10)) \<or> c = char_of (48 + n mod 10)"
      by (auto simp: showNat.simps[of n])
    then show ?thesis
    proof
      assume "c \<in> set (showNat (n div 10))"
      with "1.IH" False show ?thesis by simp
    next
      assume "c = char_of (48 + n mod 10)"
      moreover have "48 + n mod 10 \<in> {48..<58::nat}" by simp
      ultimately show ?thesis by blast
    qed
  qed
qed

lemma char_of_digit_neq:
  assumes "k \<in> {48..<58::nat}" and "of_char c \<notin> {48..<58::nat}"
  shows "char_of k \<noteq> c"
proof
  assume "char_of k = c"
  then have "of_char (char_of k :: char) = (of_char c :: nat)" by simp
  with assms show False by simp
qed

lemma showNat_not_word:
  assumes "of_char (hd n) \<notin> {48..<58::nat}" and "n \<noteq> []"
  shows "n \<noteq> showNat k"
proof
  assume "n = showNat k"
  with assms(2) have "hd n \<in> set (showNat k)" by (metis hd_in_set)
  from showNat_digits[OF this] obtain d where "d \<in> {48..<58::nat}" and "hd n = char_of d"
    by blast
  with char_of_digit_neq[OF \<open>d \<in> {48..<58}\<close> assms(1)] show False by simp
qed

lemma getProp_archivedCopy:
  assumes "x \<noteq> JNull" and "n \<noteq> ''archived''"
    and "of_char (hd n) \<notin> {48..<58::nat}" and "n \<noteq> []"
  shows "getProp (archivedCopy x) n = getProp x n"
proof (cases x)
  case JNull
  with assms show ?thesis by simp
next
  case (JArr xs)
  have "entryOf (zip (map showNat [0..<length xs]) xs) n = Undefined"
    using entryOf_zip_index[of xs xs n] showNat_not_word[OF assms(3,4)] by blast
  with JArr assms(2) show ?thesis by (simp add: entryOf_setField)
next
  case (JStr t)
  have "entryOf (zip (map showNat [0..<length t]) (map (\<lambda>c. JStr [c]) t)) n = Undefined"
    using entryOf_zip_index[of t "map (\<lambda>c. JStr [c]) t" n] showNat_not_word[OF assms(3,4)]
    by blast
  with JStr assms(2) show ?thesis by (simp add: entryOf_setField)
qed (use assms(2) in \<open>simp_all add: entryOf_setField entryOf_archived_record\<close>)

lemma getProp_setEmailSent:
  assumes "setEmailSent x = Some y" and "n \<noteq> ''emailSent''"
  shows "getProp y n = getProp x n"
  using assms by (cases x) (auto simp: entryOf_setField entryOf_emailSent_record)

lemma derived_severity:
  assumes "derived a b" and "a \<noteq> JNull"
  shows "getProp b ''severity'' = getProp a ''severity''"
    and "getProp b ''heartbeat'' = getProp a ''heartbeat''"
proof -
  from assms(1) consider "b = a" | "b = archivedCopy a" | "setEmailSent a = Some b"
    unfolding derived_def by blast
  then have "getProp b ''severity'' = getProp a ''severity''
             \<and> getProp b ''heartbeat'' = getProp a ''heartbeat''"
  proof cases
    case 1
    then show ?thesis by simp
  next
    case 2
    then show ?thesis
      using getProp_archivedCopy[OF assms(2), of "''severity''"]
        getProp_archivedCopy[OF assms(2), of "''heartbeat''"]
      by simp
  next
    case 3
    then show ?thesis
      using getProp_setEmailSent[of a b "''severity''"] getProp_setEmailSent[of a b "''heartbeat''"]
      by simp
  qed
  then show "getProp b ''severity'' = getProp a ''severity''"
    and "getProp b ''heartbeat'' = getProp a ''heartbeat''" by simp_all
qed

section \<open>Import\<close>

lemma importField_result:
  "importField q k r s = Some s1 \<Longrightarrow>
   s1 = s \<or> (\<exists>v. r = Value v \<and> s1 = putItem k (Holds (elements v)) s)"
  by (cases r) (auto simp: setItem_def split: if_splits)

lemma importAlerts_result:
  "\<exists>s1. snd (importAlerts q (Some importData) s) = s1 \<and>
     (getAllAlerts s1 = getAllAlerts s \<or> getAllAlerts s1 = fieldAlerts importData ''activeAlerts'')
     \<and> (getArchivedAlerts s1 = getArchivedAlerts s
          \<or> getArchivedAlerts s1 = fieldAlerts importData ''archivedAlerts'')"
proof (cases "importData = JNull")
  case True
  then show ?thesis by (simp add: importAlerts_def)
next
  case False
  then have nt: "getProp importData ''activeAlerts'' \<noteq> Throws"
    "getProp importData ''archivedAlerts'' \<noteq> Throws"
    by (simp_all add: getProp_Throws)
  show ?thesis
  proof (cases "importField q STORAGE_KEY (getProp importData ''activeAlerts'') s")
    case None
    then have "snd (importAlerts q (Some importData) s) = s"
      using nt by (cases "getProp importData ''activeAlerts''") (simp_all add: importAlerts_def)
    then show ?thesis by simp
  next
    case (Some s1)
    note first = this
    from importField_result[OF first]
    have a1: "getAllAlerts s1 = getAllAlerts s \<or> getAllAlerts s1 = fieldAlerts importData ''activeAlerts''"
      and r1: "getArchivedAlerts s1 = getArchivedAlerts s"
      by (auto simp: fieldAlerts_def)
    show ?thesis
    proof (cases "importField q ARCHIVED_KEY (getProp importData ''archivedAlerts'') s1")
      case None
      then have "snd (importAlerts q (Some importData) s) = s1"
        using nt first
        by (cases "getProp importData ''activeAlerts''";
            cases "getProp importData ''archivedAlerts''")
           (simp_all add: importAlerts_def)
      then show ?thesis using a1 r1 by simp
    next
      case (Some s2)
      note second = this
      from importField_result[OF second]
      have a2: "getAllAlerts s2 = getAllAlerts s1"
        and r2: "getArchivedAlerts s2 = getArchivedAlerts s1
                 \<or> getArchivedAlerts s2 = fieldAlerts importData ''archivedAlerts''"
        by (auto simp: fieldAlerts_def)
      have "snd (importAlerts q (Some importData) s) = s2"
        using nt first second
        by (cases "getProp importData ''activeAlerts''";
            cases "getProp importData ''archivedAlerts''")
           (simp_all add: importAlerts_def)
      then show ?thesis using a1 r1 a2 r2 by auto
    qed
  qed
qed

lemma importAlerts_records:
  "set (everyAlert (snd (importAlerts q jsonData s))) \<subseteq> set (everyAlert s) \<union> set (imported jsonData)"
proof (cases jsonData)
  case None
  then show ?thesis by (simp add: importAlerts_def)
next
  case (Some importData)
  show ?thesis
    using importAlerts_result[of q importData s]
    unfolding Some everyAlert_def imported_def
    by auto
qed

section \<open>Cleanup on the examples\<close>

lemma utc_cutoff: "cutoffDate utcCalendar 30 = Some 1716717600000"
  by (simp add: cutoffDate_def utcCalendar_def utcSetDateBack_def)

lemma dateOf_utc [simp]:
  "dateOf utcCalendar (JAlert a) = Made (utcParse (AlertData.timestamp a))"
  by (simp add: dateOf_def utcCalendar_def)

lemma sampleAlert_old:
  "oldBy utcCalendar (Some 1716717600000) (JAlert (sampleAlert\<lparr>severity := Some CRITICAL\<rparr>))"
  "\<not> keptBy utcCalendar (Some 1716717600000) (JAlert (sampleAlert\<lparr>severity := Some CRITICAL\<rparr>))"
  by (simp_all add: oldBy_def keptBy_def older_def notOlder_def dateLt_def dateGe_def
      utcParse_def sampleAlert_def)

lemma savedStore_cleanup:
  "cleanupOldAlerts acceptAll utcCalendar 30 savedStore = (Some 1, archivedStore)"
  using sampleAlert_old
  by (simp add: cleanupOldAlerts_cases utc_cutoff savedStore_def getAllAlerts_def
      getArchivedAlerts_def archiveAlerts_def setItem_def acceptAll_def MAX_ARCHIVED_ALERTS_def
      archivedStore_def)

section \<open>Severity\<close>

text \<open>
  C2. The record that \<^verbatim>\<open>saveAlert\<close> stores for an accepted alert is the candidate with
  \<^verbatim>\<open>severity\<close> set from its heartbeat at that moment: above 120 CRITICAL, else above 100
  HIGH, else above 90 MEDIUM, else LOW; so 121, 101, 91 and 89 give CRITICAL, HIGH, MEDIUM
  and LOW. No later operation of the store computes it again: every element of the store
  after an operation is an element of the store before it, or one the operation brought in,
  as it was, copied with \<^verbatim>\<open>archived\<close> set, or with \<^verbatim>\<open>emailSent\<close> set, and
  reads the same \<^verbatim>\<open>severity\<close> and \<^verbatim>\<open>heartbeat\<close>; an alert record among them differs
  from its origin at most in the two flags. Every element after an import is one of the
  store before it or of the document.
\<close>

theorem severity_from_heartbeat:
  "(saveAlert q alert s = (True, s') \<longrightarrow>
      filter (hasId (AlertData.id' alert)) (getAllAlerts s') =
        [JAlert (alert\<lparr>severity := Some (classifyAlertSeverity alert)\<rparr>)])
   \<and> getProp (JAlert (alert\<lparr>severity := Some (classifyAlertSeverity alert)\<rparr>)) ''severity'' =
       Value (JStr (severityName (classifyAlertSeverity alert)))
   \<and> classifyAlertSeverity alert =
       (if AlertData.heartbeat alert > 120 then CRITICAL
        else if AlertData.heartbeat alert > 100 then HIGH
        else if AlertData.heartbeat alert > 90 then MEDIUM
        else LOW)
   \<and> classifyAlertSeverity (alert\<lparr>AlertData.heartbeat := 121\<rparr>) = CRITICAL
   \<and> classifyAlertSeverity (alert\<lparr>AlertData.heartbeat := 101\<rparr>) = HIGH
   \<and> classifyAlertSeverity (alert\<lparr>AlertData.heartbeat := 91\<rparr>) = MEDIUM
   \<and> classifyAlertSeverity (alert\<lparr>AlertData.heartbeat := 89\<rparr>) = LOW
   \<and> list_all
        (\<lambda>b. list_ex
           (\<lambda>a. derived a b
                 \<and> (a \<noteq> JNull \<longrightarrow>
                      getProp b ''severity'' = getProp a ''severity''
                      \<and> getProp b ''heartbeat'' = getProp a ''heartbeat''))
           (everyAlert t @ brought op))
        (everyAlert (perform q2 cal op t))
   \<and> list_all
        (\<lambda>b. list_ex (\<lambda>a. sameAlert a b \<and> severity b = severity a
                           \<and> AlertData.heartbeat b = AlertData.heartbeat a)
                (alertsOf (everyAlert t @ brought op)))
        (alertsOf (everyAlert (perform q2 cal op t)))
   \<and> set (everyAlert (snd (importAlerts q2 jsonData t)))
       \<subseteq> set (everyAlert t) \<union> set (imported jsonData)"
proof (intro conjI impI)
  assume "saveAlert q alert s = (True, s')"
  then show "filter (hasId (AlertData.id' alert)) (getAllAlerts s') =
        [JAlert (alert\<lparr>severity := Some (classifyAlertSeverity alert)\<rparr>)]"
    by (rule saveAlert_accepted_filter)
next
  show "getProp (JAlert (alert\<lparr>severity := Some (classifyAlertSeverity alert)\<rparr>)) ''severity'' =
       Value (JStr (severityName (classifyAlertSeverity alert)))"
    by (simp add: entryOf_severity)
next
  show "list_all
        (\<lambda>b. list_ex
           (\<lambda>a. derived a b
                 \<and> (a \<noteq> JNull \<longrightarrow>
                      getProp b ''severity'' = getProp a ''severity''
                      \<and> getProp b ''heartbeat'' = getProp a ''heartbeat''))
           (everyAlert t @ brought op))
        (everyAlert (perform q2 cal op t))"
    unfolding list_all_iff list_ex_iff
  proof
    fix b assume "b \<in> set (everyAlert (perform q2 cal op t))"
    then obtain a where a: "a \<in> set (everyAlert t) \<union> set (brought op)" and ab: "derived a b"
      using origin_perform[of q2 cal op t] by blast
    from derived_severity[OF ab] a ab
    show "\<exists>a\<in>set (everyAlert t @ brought op). derived a b
                 \<and> (a \<noteq> JNull \<longrightarrow>
                      getProp b ''severity'' = getProp a ''severity''
                      \<and> getProp b ''heartbeat'' = getProp a ''heartbeat'')"
      by auto
  qed
next
  show "list_all
        (\<lambda>b. list_ex (\<lambda>a. sameAlert a b \<and> severity b = severity a
                           \<and> AlertData.heartbeat b = AlertData.heartbeat a)
                (alertsOf (everyAlert t @ brought op)))
        (alertsOf (everyAlert (perform q2 cal op t)))"
    unfolding list_all_iff list_ex_iff
  proof
    fix b assume "b \<in> set (alertsOf (everyAlert (perform q2 cal op t)))"
    from origin_records[OF this]
    obtain a where a: "a \<in> set (alertsOf (everyAlert t @ brought op))" and ab: "sameAlert a b"
      by blast
    from sameAlert_fields[OF ab] a ab
    show "\<exists>a\<in>set (alertsOf (everyAlert t @ brought op)). sameAlert a b \<and> severity b = severity a
                           \<and> AlertData.heartbeat b = AlertData.heartbeat a"
      by auto
  qed
next
  show "set (everyAlert (snd (importAlerts q2 jsonData t)))
       \<subseteq> set (everyAlert t) \<union> set (imported jsonData)"
    by (rule importAlerts_records)
qed (simp_all add: classifyAlertSeverity_def)

theorem severity_from_heartbeat_witness:
  "saveAlert acceptAll sampleAlert emptyStore = (True, savedStore)
   \<and> filter (hasId (AlertData.id' sampleAlert)) (getAllAlerts savedStore) =
        [JAlert (sampleAlert\<lparr>severity := Some (classifyAlertSeverity sampleAlert)\<rparr>)]
   \<and> classifyAlertSeverity sampleAlert = CRITICAL
   \<and> everyAlert (perform acceptAll utcCalendar (Cleanup 30) savedStore) =
        [JAlert (sampleAlert\<lparr>severity := Some CRITICAL, archived := Some True\<rparr>)]
   \<and> getProp (JAlert (sampleAlert\<lparr>severity := Some CRITICAL, archived := Some True\<rparr>)) ''severity'' =
       Value (JStr ''CRITICAL'')"
proof -
  have saved: "saveAlert acceptAll sampleAlert emptyStore = (True, savedStore)"
    by (rule sampleAlert_saved)
  have "filter (hasId (AlertData.id' sampleAlert)) (getAllAlerts savedStore) =
        [JAlert (sampleAlert\<lparr>severity := Some (classifyAlertSeverity sampleAlert)\<rparr>)]"
    using severity_from_heartbeat [where q = acceptAll and alert = sampleAlert
        and s = emptyStore and s' = savedStore] saved
    by blast
  moreover have "classifyAlertSeverity sampleAlert = CRITICAL"
    by (simp add: classifyAlertSeverity_def sampleAlert_def)
  moreover have "everyAlert (perform acceptAll utcCalendar (Cleanup 30) savedStore) =
        [JAlert (sampleAlert\<lparr>severity := Some CRITICAL, archived := Some True\<rparr>)]"
    by (simp add: savedStore_cleanup everyAlert_def archivedStore_def getAllAlerts_def
        getArchivedAlerts_def)
  moreover have "getProp (JAlert (sampleAlert\<lparr>severity := Some CRITICAL, archived := Some True\<rparr>))
                   ''severity'' = Value (JStr ''CRITICAL'')"
    by (simp add: entryOf_severity)
  ultimately show ?thesis using saved by simp
qed

section \<open>The detector\<close>
















section \<open>Archive\<close>

text \<open>
  C5. When \<^verbatim>\<open>archiveAlerts\<close> returns \<^verbatim>\<open>true\<close>, the archived collection is the input
  elements, each copied with \<^verbatim>\<open>archived\<close> set to \<^verbatim>\<open>true\<close>, in front of the elements
  archived before, cut to the first 5000: what is beyond the cap, the tail, is gone. The
  copy of an alert record is the record with the flag set, and the copy of any element reads
  \<^verbatim>\<open>archived\<close> as \<^verbatim>\<open>true\<close>. With a full archive, archiving one element drops the
  last one. The active collection is not touched. The call returns \<^verbatim>\<open>false\<close>, and
  changes nothing, exactly when the browser refuses the write.
\<close>

theorem archiveAlerts_result:
  "(archiveAlerts q alerts s = (True, s') \<longrightarrow>
      getArchivedAlerts s' = take 5000 (map archivedCopy alerts @ getArchivedAlerts s)
      \<and> getArchivedAlerts s' @ drop 5000 (map archivedCopy alerts @ getArchivedAlerts s) =
          map archivedCopy alerts @ getArchivedAlerts s
      \<and> length (getArchivedAlerts s') \<le> 5000
      \<and> getAllAlerts s' = getAllAlerts s)
   \<and> map archivedCopy (map JAlert records) =
       map (\<lambda>alert. JAlert (alert\<lparr>archived := Some True\<rparr>)) records
   \<and> getProp (archivedCopy x) ''archived'' = Value (JBool True)
   \<and> (archiveAlerts q [x] s = (True, s') \<and> length (getArchivedAlerts s) = 5000 \<longrightarrow>
        getArchivedAlerts s' = archivedCopy x # butlast (getArchivedAlerts s))
   \<and> (archiveAlerts q alerts s = (False, s') \<longrightarrow> s' = s)
   \<and> fst (archiveAlerts q alerts s) =
       q ARCHIVED_KEY (take 5000 (map archivedCopy alerts @ getArchivedAlerts s))"
proof (intro conjI impI)
  let ?all = "map archivedCopy alerts @ getArchivedAlerts s"
  assume "archiveAlerts q alerts s = (True, s')"
  then show kept: "getArchivedAlerts s' = take 5000 ?all"
    and "getAllAlerts s' = getAllAlerts s"
    by (auto simp: archiveAlerts_cases MAX_ARCHIVED_value simp del: take_append split: if_splits)
  show "getArchivedAlerts s' @ drop 5000 ?all = ?all"
    unfolding kept by (rule append_take_drop_id)
  show "length (getArchivedAlerts s') \<le> 5000"
    unfolding kept by simp
next
  show "map archivedCopy (map JAlert records) =
       map (\<lambda>alert. JAlert (alert\<lparr>archived := Some True\<rparr>)) records"
    by simp
next
  show "getProp (archivedCopy x) ''archived'' = Value (JBool True)"
    by (cases x) (simp_all add: entryOf_setField entryOf_archived_record)
next
  assume "archiveAlerts q [x] s = (True, s') \<and> length (getArchivedAlerts s) = 5000"
  then have "getArchivedAlerts s' = take 5000 (archivedCopy x # getArchivedAlerts s)"
    and len: "length (getArchivedAlerts s) = 5000"
    by (auto simp: archiveAlerts_cases MAX_ARCHIVED_value simp del: take_append split: if_splits)
  then show "getArchivedAlerts s' = archivedCopy x # butlast (getArchivedAlerts s)"
    by (simp add: take_Cons' butlast_conv_take)
next
  assume "archiveAlerts q alerts s = (False, s')"
  then show "s' = s"
    by (simp add: archiveAlerts_cases del: take_append split: if_splits)
next
  show "fst (archiveAlerts q alerts s) =
       q ARCHIVED_KEY (take 5000 (map archivedCopy alerts @ getArchivedAlerts s))"
    by (simp add: archiveAlerts_cases MAX_ARCHIVED_value del: take_append)
qed

lemma sampleAlert_archived:
  "archiveAlerts acceptAll [JAlert sampleAlert] emptyStore =
     (True, \<lparr>safetrack_critical_alerts = Absent,
             safetrack_archived_alerts = Holds [JAlert (sampleAlert\<lparr>archived := Some True\<rparr>)]\<rparr>)"
  by (simp add: archiveAlerts_cases acceptAll_def MAX_ARCHIVED_ALERTS_def emptyStore_def
      getArchivedAlerts_def)

lemma fullArchive_length: "length (getArchivedAlerts fullArchive) = 5000"
  by (simp add: fullArchive_def getArchivedAlerts_def)

lemma sampleAlert_refused:
  "archiveAlerts refuseArchive [JAlert sampleAlert] emptyStore = (False, emptyStore)"
  by (simp add: archiveAlerts_cases refuseArchive_def del: take_append)

theorem archiveAlerts_result_witness:
  "archiveAlerts acceptAll [JAlert sampleAlert] emptyStore =
     (True, \<lparr>safetrack_critical_alerts = Absent,
             safetrack_archived_alerts = Holds [JAlert (sampleAlert\<lparr>archived := Some True\<rparr>)]\<rparr>)
   \<and> archiveAlerts refuseArchive [JAlert sampleAlert] emptyStore = (False, emptyStore)
   \<and> fst (archiveAlerts acceptAll [JAlert sampleAlert] fullArchive)
   \<and> length (getArchivedAlerts fullArchive) = 5000
   \<and> getArchivedAlerts (snd (archiveAlerts acceptAll [JAlert sampleAlert] fullArchive)) =
       JAlert (sampleAlert\<lparr>archived := Some True\<rparr>) # butlast (getArchivedAlerts fullArchive)"
proof -
  have acc: "fst (archiveAlerts acceptAll [JAlert sampleAlert] fullArchive)"
    by (simp add: archiveAlerts_cases acceptAll_def del: take_append)
  then have "archiveAlerts acceptAll [JAlert sampleAlert] fullArchive =
               (True, snd (archiveAlerts acceptAll [JAlert sampleAlert] fullArchive))"
    by (simp add: prod_eq_iff)
  with fullArchive_length
  have "getArchivedAlerts (snd (archiveAlerts acceptAll [JAlert sampleAlert] fullArchive)) =
       archivedCopy (JAlert sampleAlert) # butlast (getArchivedAlerts fullArchive)"
    using archiveAlerts_result [where q = acceptAll and x = "JAlert sampleAlert" and s = fullArchive
        and s' = "snd (archiveAlerts acceptAll [JAlert sampleAlert] fullArchive)"]
    by blast
  then show ?thesis
    using acc fullArchive_length sampleAlert_archived sampleAlert_refused by simp
qed

section \<open>Delete\<close>

text \<open>
  C10 as stated fails: in the store that an import of a document with the active collection
  \<^verbatim>\<open>[null]\<close> leaves, \<^verbatim>\<open>deleteAlert\<close> returns \<^verbatim>\<open>false\<close> for an \<^verbatim>\<open>alertId\<close> that
  matches nothing, in a browser that accepts every write: the filter throws a TypeError
  before any write, and the \<^verbatim>\<open>catch\<close> answers it.
\<close>

theorem deleteAlert_null_counterexample:
  "importAlerts acceptAll (Some nullDocument) emptyStore = (True, nullStore)
   \<and> \<not> list_ex (hasId ''band9-never'') (getAllAlerts nullStore)
   \<and> acceptAll STORAGE_KEY (getAllAlerts nullStore)
   \<and> deleteAlert acceptAll ''band9-never'' nullStore = (False, nullStore)"
  by (simp add: importAlerts_def nullDocument_def entryOf_def setItem_def acceptAll_def
      emptyStore_def nullStore_def getAllAlerts_def deleteAlert_def idDiffers_def)

text \<open>
  C10, as amended. \<^verbatim>\<open>deleteAlert\<close> returns \<^verbatim>\<open>true\<close> exactly when no element of the
  active collection is \<^verbatim>\<open>null\<close> and the write of the filtered collection is accepted.
  For an \<^verbatim>\<open>alertId\<close> that matches no active element, both collections read as before,
  whatever is returned; when no element is \<^verbatim>\<open>null\<close>, the filtered collection is the
  active collection itself, and the call writes it back and returns \<^verbatim>\<open>true\<close> when the
  browser accepts the write. With a \<^verbatim>\<open>null\<close> element the call returns \<^verbatim>\<open>false\<close> and
  changes nothing. So \<^verbatim>\<open>false\<close> reports a refused write or an element whose \<^verbatim>\<open>id\<close>
  cannot be read, never a missing \<^verbatim>\<open>id\<close>.
\<close>

theorem deleteAlert_missing:
  "(fst (deleteAlert q alertId s) \<longleftrightarrow>
      JNull \<notin> set (getAllAlerts s)
      \<and> setItem q STORAGE_KEY (filter (\<lambda>x. \<not> hasId alertId x) (getAllAlerts s)) s \<noteq> None)
   \<and> (\<not> list_ex (hasId alertId) (getAllAlerts s) \<longrightarrow>
        getAllAlerts (snd (deleteAlert q alertId s)) = getAllAlerts s
        \<and> getArchivedAlerts (snd (deleteAlert q alertId s)) = getArchivedAlerts s
        \<and> (fst (deleteAlert q alertId s) \<longleftrightarrow>
             JNull \<notin> set (getAllAlerts s) \<and> q STORAGE_KEY (getAllAlerts s)))
   \<and> (\<not> list_ex (hasId alertId) (getAllAlerts s) \<and> JNull \<notin> set (getAllAlerts s)
        \<and> q STORAGE_KEY (getAllAlerts s) \<longrightarrow>
        deleteAlert q alertId s = (True, s\<lparr>safetrack_critical_alerts := Holds (getAllAlerts s)\<rparr>))
   \<and> (JNull \<in> set (getAllAlerts s) \<longrightarrow> deleteAlert q alertId s = (False, s))"
proof (intro conjI impI)
  show "fst (deleteAlert q alertId s) \<longleftrightarrow>
      JNull \<notin> set (getAllAlerts s)
      \<and> setItem q STORAGE_KEY (filter (\<lambda>x. \<not> hasId alertId x) (getAllAlerts s)) s \<noteq> None"
    by (simp add: deleteAlert_cases setItem_def)
next
  assume "\<not> list_ex (hasId alertId) (getAllAlerts s)"
  then have same: "filter (\<lambda>x. \<not> hasId alertId x) (getAllAlerts s) = getAllAlerts s"
    by (simp add: list_ex_iff filter_id_conv)
  show "getAllAlerts (snd (deleteAlert q alertId s)) = getAllAlerts s"
    by (simp add: deleteAlert_cases same)
  show "getArchivedAlerts (snd (deleteAlert q alertId s)) = getArchivedAlerts s"
    by simp
  show "fst (deleteAlert q alertId s) \<longleftrightarrow>
             JNull \<notin> set (getAllAlerts s) \<and> q STORAGE_KEY (getAllAlerts s)"
    by (simp add: deleteAlert_cases same)
next
  assume "\<not> list_ex (hasId alertId) (getAllAlerts s) \<and> JNull \<notin> set (getAllAlerts s)
        \<and> q STORAGE_KEY (getAllAlerts s)"
  then have same: "filter (\<lambda>x. \<not> hasId alertId x) (getAllAlerts s) = getAllAlerts s"
    and nn: "JNull \<notin> set (getAllAlerts s)"
    and ok: "q STORAGE_KEY (getAllAlerts s)"
    by (simp_all add: list_ex_iff filter_id_conv)
  show "deleteAlert q alertId s = (True, s\<lparr>safetrack_critical_alerts := Holds (getAllAlerts s)\<rparr>)"
    by (simp add: deleteAlert_cases same ok nn)
next
  assume "JNull \<in> set (getAllAlerts s)"
  then show "deleteAlert q alertId s = (False, s)"
    by (simp add: deleteAlert_cases)
qed

theorem deleteAlert_missing_witness:
  "\<not> list_ex (hasId ''band9-never'') (getAllAlerts savedStore)
   \<and> JNull \<notin> set (getAllAlerts savedStore)
   \<and> acceptAll STORAGE_KEY (getAllAlerts savedStore)
   \<and> deleteAlert acceptAll ''band9-never'' savedStore = (True, savedStore)
   \<and> deleteAlert acceptAll ''band9-never'' emptyStore =
       (True, \<lparr>safetrack_critical_alerts = Holds [], safetrack_archived_alerts = Absent\<rparr>)
   \<and> deleteAlert quotaFull ''band9-never'' savedStore = (False, savedStore)
   \<and> deleteAlert quotaFull ''band7-2024-05-01T10:00:00Z'' savedStore = (False, savedStore)
   \<and> JNull \<in> set (getAllAlerts nullStore)
   \<and> deleteAlert acceptAll ''band9-never'' nullStore = (False, nullStore)"
proof -
  have no: "\<not> list_ex (hasId ''band9-never'') (getAllAlerts savedStore)"
    by (simp add: savedStore_def getAllAlerts_def sampleAlert_def)
  have nn: "JNull \<notin> set (getAllAlerts savedStore)"
    by (simp add: savedStore_def getAllAlerts_def)
  have ok: "acceptAll STORAGE_KEY (getAllAlerts savedStore)"
    by (simp add: acceptAll_def)
  have nu: "JNull \<in> set (getAllAlerts nullStore)"
    by (simp add: nullStore_def getAllAlerts_def)
  have "deleteAlert acceptAll ''band9-never'' savedStore =
          (True, savedStore\<lparr>safetrack_critical_alerts := Holds (getAllAlerts savedStore)\<rparr>)"
    using deleteAlert_missing [where q = acceptAll and alertId = "''band9-never''" and s = savedStore]
      no nn ok
    by blast
  then have "deleteAlert acceptAll ''band9-never'' savedStore = (True, savedStore)"
    by (simp add: savedStore_def getAllAlerts_def)
  moreover have "deleteAlert acceptAll ''band9-never'' nullStore = (False, nullStore)"
    using deleteAlert_missing [where q = acceptAll and alertId = "''band9-never''" and s = nullStore]
      nu
    by blast
  moreover have "deleteAlert acceptAll ''band9-never'' emptyStore =
       (True, \<lparr>safetrack_critical_alerts = Holds [], safetrack_archived_alerts = Absent\<rparr>)"
    by (simp add: deleteAlert_cases acceptAll_def emptyStore_def getAllAlerts_def)
  moreover have "deleteAlert quotaFull ''band9-never'' savedStore = (False, savedStore)"
    "deleteAlert quotaFull ''band7-2024-05-01T10:00:00Z'' savedStore = (False, savedStore)"
    by (simp_all add: deleteAlert_cases quotaFull_def)
  ultimately show ?thesis using no nn ok nu by simp
qed

section \<open>Export and import\<close>

lemma readTimestamp_None: "readTimestamp x = None \<longleftrightarrow> x = JNull"
  using getProp_Throws[of x "''timestamp''"]
  by (cases "getProp x ''timestamp''") (auto simp: readTimestamp_def)

lemma arrayMap_readTimestamp:
  "arrayMap readTimestamp xs =
     (if JNull \<in> set xs then None else Some (map (\<lambda>x. getProp x ''timestamp'') xs))"
proof (induction xs)
  case Nil
  then show ?case by simp
next
  case (Cons x xs)
  have "readTimestamp x = (if x = JNull then None else Some (getProp x ''timestamp''))"
    using getProp_Throws[of x "''timestamp''"]
    by (cases "getProp x ''timestamp''") (auto simp: readTimestamp_def)
  with Cons show ?case by auto
qed

lemma getStorageStats_throws:
  "getStorageStats bytes order s = None \<longleftrightarrow>
     JNull \<in> set (getAllAlerts s) \<or> JNull \<in> set (getArchivedAlerts s)
     \<or> order (map (\<lambda>x. getProp x ''timestamp'') (getAllAlerts s @ getArchivedAlerts s)) = None"
  by (auto simp: getStorageStats_def Let_def arrayMap_readTimestamp split: option.splits)

lemma exportAlerts_throws:
  "exportAlerts exportDate bytes order includeArchived s = None \<longleftrightarrow>
     JNull \<in> set (getAllAlerts s) \<or> JNull \<in> set (getArchivedAlerts s)
     \<or> order (map (\<lambda>x. getProp x ''timestamp'') (getAllAlerts s @ getArchivedAlerts s)) = None"
proof -
  have "exportAlerts exportDate bytes order includeArchived s = None \<longleftrightarrow>
          getStorageStats bytes order s = None"
    by (simp add: exportAlerts_def Let_def split: option.splits)
  then show ?thesis by (simp only: getStorageStats_throws)
qed

lemma exportAlerts_fields:
  assumes "exportAlerts exportDate bytes order includeArchived s = Some doc"
  shows "getProp doc ''activeAlerts'' = Value (JArr (getAllAlerts s))"
    and "getProp doc ''archivedAlerts'' =
           Value (JArr (if includeArchived then getArchivedAlerts s else []))"
  using assms
  by (auto simp: exportAlerts_def Let_def entryOf_def split: option.splits)

lemma importAlerts_document:
  assumes "getProp doc ''activeAlerts'' = Value (JArr xs)"
    and "getProp doc ''archivedAlerts'' = Value (JArr ys)"
  shows "importAlerts q (Some doc) t =
     (if q STORAGE_KEY xs
      then if q ARCHIVED_KEY ys
           then (True, \<lparr>safetrack_critical_alerts = Holds xs, safetrack_archived_alerts = Holds ys\<rparr>)
           else (False, t\<lparr>safetrack_critical_alerts := Holds xs\<rparr>)
      else (False, t))"
  by (simp add: importAlerts_def assms setItem_def)

text \<open>
  C8 as stated fails: the store that an import of a document with the active collection
  \<^verbatim>\<open>[null]\<close> leaves has no export. \<^verbatim>\<open>exportAlerts\<close> throws a TypeError when
  \<^verbatim>\<open>getStorageStats\<close> reads the \<^verbatim>\<open>timestamp\<close> of \<^verbatim>\<open>null\<close>, so there is no document
  to import.
\<close>

theorem exportAlerts_null_counterexample:
  "importAlerts acceptAll (Some nullDocument) emptyStore = (True, nullStore)
   \<and> exportAlerts ''2024-06-25T10:00:00.000Z'' blobSize sortTexts True nullStore = None"
  by (simp add: importAlerts_def nullDocument_def entryOf_def setItem_def acceptAll_def
      emptyStore_def exportAlerts_throws)
     (simp add: nullStore_def getAllAlerts_def)

text \<open>
  C8, as amended. \<^verbatim>\<open>exportAlerts(true)\<close> returns a document exactly when neither
  collection holds \<^verbatim>\<open>null\<close> and \<^verbatim>\<open>sort()\<close> does not throw on the timestamps of
  the elements. The document holds the active and the archived collection
  under the two names that \<^verbatim>\<open>importAlerts\<close> reads, as arrays, empty or not. An import of
  it that returns \<^verbatim>\<open>true\<close> leaves, whatever the store held, the two arrays of the
  exported store under the two keys: the same elements in the same order; it is the
  exported store itself when that one holds an array under each key. The import returns
  \<^verbatim>\<open>true\<close> exactly when the browser accepts the two writes.
\<close>

theorem export_import_roundtrip:
  "(exportAlerts exportDate bytes order True s = None \<longleftrightarrow>
      JNull \<in> set (getAllAlerts s) \<or> JNull \<in> set (getArchivedAlerts s)
      \<or> order (map (\<lambda>x. getProp x ''timestamp'') (getAllAlerts s @ getArchivedAlerts s)) = None)
   \<and> (exportAlerts exportDate bytes order True s = Some doc \<longrightarrow>
        getProp doc ''activeAlerts'' = Value (JArr (getAllAlerts s))
        \<and> getProp doc ''archivedAlerts'' = Value (JArr (getArchivedAlerts s))
        \<and> (fst (importAlerts q (Some doc) t) \<longleftrightarrow>
             q STORAGE_KEY (getAllAlerts s) \<and> q ARCHIVED_KEY (getArchivedAlerts s)))
   \<and> (exportAlerts exportDate bytes order True s = Some doc
        \<and> importAlerts q (Some doc) t = (True, t') \<longrightarrow>
        t' = \<lparr>safetrack_critical_alerts = Holds (getAllAlerts s),
              safetrack_archived_alerts = Holds (getArchivedAlerts s)\<rparr>)
   \<and> (exportAlerts exportDate bytes order True s = Some doc
        \<and> importAlerts q (Some doc) t = (True, t')
        \<and> safetrack_critical_alerts s = Holds active
        \<and> safetrack_archived_alerts s = Holds archive \<longrightarrow>
        t' = s)"
proof (intro conjI impI)
  show "exportAlerts exportDate bytes order True s = None \<longleftrightarrow>
      JNull \<in> set (getAllAlerts s) \<or> JNull \<in> set (getArchivedAlerts s)
      \<or> order (map (\<lambda>x. getProp x ''timestamp'') (getAllAlerts s @ getArchivedAlerts s)) = None"
    by (rule exportAlerts_throws)
next
  assume e: "exportAlerts exportDate bytes order True s = Some doc"
  from exportAlerts_fields[OF e]
  show a: "getProp doc ''activeAlerts'' = Value (JArr (getAllAlerts s))"
    and b: "getProp doc ''archivedAlerts'' = Value (JArr (getArchivedAlerts s))"
    by simp_all
  show "fst (importAlerts q (Some doc) t) \<longleftrightarrow>
             q STORAGE_KEY (getAllAlerts s) \<and> q ARCHIVED_KEY (getArchivedAlerts s)"
    by (simp add: importAlerts_document[OF a b])
next
  assume "exportAlerts exportDate bytes order True s = Some doc
        \<and> importAlerts q (Some doc) t = (True, t')"
  then have e: "exportAlerts exportDate bytes order True s = Some doc"
    and i: "importAlerts q (Some doc) t = (True, t')" by simp_all
  from exportAlerts_fields[OF e]
  have a: "getProp doc ''activeAlerts'' = Value (JArr (getAllAlerts s))"
    and b: "getProp doc ''archivedAlerts'' = Value (JArr (getArchivedAlerts s))"
    by simp_all
  from i show "t' = \<lparr>safetrack_critical_alerts = Holds (getAllAlerts s),
              safetrack_archived_alerts = Holds (getArchivedAlerts s)\<rparr>"
    by (simp add: importAlerts_document[OF a b] split: if_splits)
next
  assume all: "exportAlerts exportDate bytes order True s = Some doc
        \<and> importAlerts q (Some doc) t = (True, t')
        \<and> safetrack_critical_alerts s = Holds active
        \<and> safetrack_archived_alerts s = Holds archive"
  then have e: "exportAlerts exportDate bytes order True s = Some doc"
    and i: "importAlerts q (Some doc) t = (True, t')" by simp_all
  from exportAlerts_fields[OF e]
  have a: "getProp doc ''activeAlerts'' = Value (JArr (getAllAlerts s))"
    and b: "getProp doc ''archivedAlerts'' = Value (JArr (getArchivedAlerts s))"
    by simp_all
  from i have "t' = \<lparr>safetrack_critical_alerts = Holds (getAllAlerts s),
              safetrack_archived_alerts = Holds (getArchivedAlerts s)\<rparr>"
    by (simp add: importAlerts_document[OF a b] split: if_splits)
  with all show "t' = s"
    by (cases s) (simp add: getAllAlerts_def getArchivedAlerts_def)
qed

lemma sortTexts_three:
  "sortTexts [Value (JStr ''2024-06-20T10:00:00Z''), Value (JStr ''2024-05-01T10:00:00Z''),
              Value (JStr ''01/05/2024 10:00'')] =
     Some [Value (JStr ''01/05/2024 10:00''), Value (JStr ''2024-05-01T10:00:00Z''),
           Value (JStr ''2024-06-20T10:00:00Z'')]"
  by code_simp

lemma exportedStore_export:
  "exportAlerts ''2024-06-25T10:00:00.000Z'' blobSize sortTexts True exportedStore =
     Some exportedDocument"
  by (simp add: exportAlerts_def getStorageStats_def Let_def exportedStore_def getAllAlerts_def
      getArchivedAlerts_def readTimestamp_def sortTexts_three statsJson_def
      calculateStorageSize_def itemSize_def blobSize_def exportedDocument_def
      recentAlert_def sampleAlert_def undatedAlert_def entryOf_def fieldsOf_def)

lemma exportedDocument_import:
  "importAlerts acceptAll (Some exportedDocument) savedStore = (True, exportedStore)"
  by (simp add: importAlerts_def exportedDocument_def entryOf_def setItem_def acceptAll_def
      exportedStore_def)

theorem export_import_roundtrip_witness:
  "exportAlerts ''2024-06-25T10:00:00.000Z'' blobSize sortTexts True exportedStore =
     Some exportedDocument
   \<and> importAlerts acceptAll (Some exportedDocument) savedStore = (True, exportedStore)
   \<and> safetrack_critical_alerts exportedStore =
       Holds [JAlert (recentAlert\<lparr>severity := Some HIGH\<rparr>),
              JAlert (sampleAlert\<lparr>severity := Some CRITICAL\<rparr>)]
   \<and> safetrack_archived_alerts exportedStore =
       Holds [JAlert (undatedAlert\<lparr>archived := Some True\<rparr>)]
   \<and> getProp exportedDocument ''activeAlerts'' =
       Value (JArr [JAlert (recentAlert\<lparr>severity := Some HIGH\<rparr>),
                    JAlert (sampleAlert\<lparr>severity := Some CRITICAL\<rparr>)])"
proof -
  have c: "safetrack_critical_alerts exportedStore =
       Holds [JAlert (recentAlert\<lparr>severity := Some HIGH\<rparr>),
              JAlert (sampleAlert\<lparr>severity := Some CRITICAL\<rparr>)]"
    "safetrack_archived_alerts exportedStore =
       Holds [JAlert (undatedAlert\<lparr>archived := Some True\<rparr>)]"
    by (simp_all add: exportedStore_def)
  have g: "getAllAlerts exportedStore =
       [JAlert (recentAlert\<lparr>severity := Some HIGH\<rparr>),
        JAlert (sampleAlert\<lparr>severity := Some CRITICAL\<rparr>)]"
    by (simp add: exportedStore_def getAllAlerts_def)
  have "snd (importAlerts acceptAll (Some exportedDocument) savedStore) = exportedStore"
    using export_import_roundtrip [where s = exportedStore and doc = exportedDocument
        and exportDate = "''2024-06-25T10:00:00.000Z''" and bytes = blobSize and order = sortTexts
        and q = acceptAll and t = savedStore
        and t' = "snd (importAlerts acceptAll (Some exportedDocument) savedStore)"
        and active = "[JAlert (recentAlert\<lparr>severity := Some HIGH\<rparr>),
              JAlert (sampleAlert\<lparr>severity := Some CRITICAL\<rparr>)]"
        and archive = "[JAlert (undatedAlert\<lparr>archived := Some True\<rparr>)]"]
      exportedStore_export exportedDocument_import c
    by simp
  moreover have "getProp exportedDocument ''activeAlerts'' = Value (JArr (getAllAlerts exportedStore))"
    using export_import_roundtrip [where s = exportedStore and doc = exportedDocument
        and exportDate = "''2024-06-25T10:00:00.000Z''" and bytes = blobSize and order = sortTexts]
      exportedStore_export
    by blast
  ultimately show ?thesis
    using exportedStore_export exportedDocument_import c g by simp
qed

section \<open>Import of a document without the collections\<close>

lemma importField_skip:
  "\<not> hasArrayField (Some importData) name \<Longrightarrow> getProp importData name \<noteq> Throws \<Longrightarrow>
   importField q k (getProp importData name) s = Some s"
  by (cases "getProp importData name") (auto simp: hasArrayField_def)

lemma importAlerts_active_kept:
  assumes "\<not> hasArrayField jsonData ''activeAlerts''"
  shows "safetrack_critical_alerts (snd (importAlerts q jsonData s)) = safetrack_critical_alerts s"
proof (cases jsonData)
  case None
  then show ?thesis by (simp add: importAlerts_def)
next
  case (Some importData)
  show ?thesis
  proof (cases "importData = JNull")
    case True
    then show ?thesis by (simp add: importAlerts_def Some)
  next
    case False
    then have nt: "getProp importData ''activeAlerts'' \<noteq> Throws"
      "getProp importData ''archivedAlerts'' \<noteq> Throws"
      by (simp_all add: getProp_Throws)
    have "importField q STORAGE_KEY (getProp importData ''activeAlerts'') s = Some s"
      using assms nt(1) unfolding Some by (rule importField_skip)
    then show ?thesis
      using nt
      by (cases "getProp importData ''activeAlerts''";
          cases "getProp importData ''archivedAlerts''")
         (auto simp: importAlerts_def Some setItem_def split: option.splits if_splits)
  qed
qed


lemma importField_archived_cell:
  "importField q STORAGE_KEY r s = Some s1 \<Longrightarrow>
   safetrack_archived_alerts s1 = safetrack_archived_alerts s"
  by (cases r) (auto simp: setItem_def split: if_splits)

lemma importAlerts_archived_kept:
  assumes "\<not> hasArrayField jsonData ''archivedAlerts''"
  shows "safetrack_archived_alerts (snd (importAlerts q jsonData s)) = safetrack_archived_alerts s"
proof (cases jsonData)
  case None
  then show ?thesis by (simp add: importAlerts_def)
next
  case (Some importData)
  show ?thesis
  proof (cases "importData = JNull")
    case True
    then show ?thesis by (simp add: importAlerts_def Some)
  next
    case False
    then have nt: "getProp importData ''activeAlerts'' \<noteq> Throws"
      "getProp importData ''archivedAlerts'' \<noteq> Throws"
      by (simp_all add: getProp_Throws)
    have skip: "\<And>s1. importField q ARCHIVED_KEY (getProp importData ''archivedAlerts'') s1 = Some s1"
      using assms nt(2) unfolding Some by (rule importField_skip)
    show ?thesis
    proof (cases "importField q STORAGE_KEY (getProp importData ''activeAlerts'') s")
      case None
      then show ?thesis
        using nt by (cases "getProp importData ''activeAlerts''")
          (simp_all add: importAlerts_def Some)
    next
      case (Some s1)
      note first = this
      have "snd (importAlerts q jsonData s) = s1"
        using nt first skip[of s1]
        by (cases "getProp importData ''activeAlerts''";
            cases "getProp importData ''archivedAlerts''")
           (simp_all add: importAlerts_def \<open>jsonData = Some importData\<close>)
      then show ?thesis
        using importField_archived_cell[OF first] by simp
    qed
  qed
qed

lemma importAlerts_nothing_returns:
  assumes "\<not> hasArrayField jsonData ''activeAlerts''"
    and "\<not> hasArrayField jsonData ''archivedAlerts''"
  shows "fst (importAlerts q jsonData s) \<longleftrightarrow> jsonData \<noteq> None \<and> jsonData \<noteq> Some JNull"
proof (cases jsonData)
  case None
  then show ?thesis by (simp add: importAlerts_def)
next
  case (Some importData)
  show ?thesis
  proof (cases "importData = JNull")
    case True
    then show ?thesis by (simp add: importAlerts_def Some)
  next
    case False
    then have nt: "getProp importData ''activeAlerts'' \<noteq> Throws"
      "getProp importData ''archivedAlerts'' \<noteq> Throws"
      by (simp_all add: getProp_Throws)
    have "\<And>s1. importField q STORAGE_KEY (getProp importData ''activeAlerts'') s1 = Some s1"
      "\<And>s1. importField q ARCHIVED_KEY (getProp importData ''archivedAlerts'') s1 = Some s1"
      using assms nt unfolding Some by (simp_all add: importField_skip)
    then have "fst (importAlerts q jsonData s)"
      using nt
      by (cases "getProp importData ''activeAlerts''";
          cases "getProp importData ''archivedAlerts''")
         (simp_all add: importAlerts_def Some)
    then show ?thesis using False Some by simp
  qed
qed

text \<open>
  C9, as amended. A collection that the document does not hold as an array is left as it
  was, each of the two on its own. For a document that holds neither, the store after
  \<^verbatim>\<open>importAlerts\<close> is the store before; the call returns \<^verbatim>\<open>false\<close> when the text
  does not parse or parses to \<^verbatim>\<open>null\<close>, and \<^verbatim>\<open>true\<close> for every other such document.
\<close>

theorem importAlerts_without_collections:
  "(\<not> hasArrayField jsonData ''activeAlerts'' \<longrightarrow>
      safetrack_critical_alerts (snd (importAlerts q jsonData s)) = safetrack_critical_alerts s)
   \<and> (\<not> hasArrayField jsonData ''archivedAlerts'' \<longrightarrow>
      safetrack_archived_alerts (snd (importAlerts q jsonData s)) = safetrack_archived_alerts s)
   \<and> (\<not> hasArrayField jsonData ''activeAlerts'' \<and> \<not> hasArrayField jsonData ''archivedAlerts'' \<longrightarrow>
        snd (importAlerts q jsonData s) = s
        \<and> (fst (importAlerts q jsonData s) \<longleftrightarrow> jsonData \<noteq> None \<and> jsonData \<noteq> Some JNull))"
proof (intro conjI impI)
  assume "\<not> hasArrayField jsonData ''activeAlerts''"
  then show "safetrack_critical_alerts (snd (importAlerts q jsonData s)) = safetrack_critical_alerts s"
    by (rule importAlerts_active_kept)
next
  assume "\<not> hasArrayField jsonData ''archivedAlerts''"
  then show "safetrack_archived_alerts (snd (importAlerts q jsonData s)) = safetrack_archived_alerts s"
    by (rule importAlerts_archived_kept)
next
  assume both: "\<not> hasArrayField jsonData ''activeAlerts'' \<and> \<not> hasArrayField jsonData ''archivedAlerts''"
  then have "safetrack_critical_alerts (snd (importAlerts q jsonData s)) = safetrack_critical_alerts s"
    and "safetrack_archived_alerts (snd (importAlerts q jsonData s)) = safetrack_archived_alerts s"
    by (simp_all add: importAlerts_active_kept importAlerts_archived_kept)
  then show "snd (importAlerts q jsonData s) = s"
    by (cases "snd (importAlerts q jsonData s)", cases s) simp
  from both show "fst (importAlerts q jsonData s) \<longleftrightarrow> jsonData \<noteq> None \<and> jsonData \<noteq> Some JNull"
    by (simp add: importAlerts_nothing_returns)
qed

lemma brokenDocument_fields:
  "\<not> hasArrayField (Some brokenDocument) ''activeAlerts''"
  "\<not> hasArrayField (Some brokenDocument) ''archivedAlerts''"
  by (simp_all add: hasArrayField_def brokenDocument_def entryOf_def)

text \<open>
  C9 as stated fails: a document whose two fields are a string and a number holds no
  collection, and \<^verbatim>\<open>importAlerts\<close> returns \<^verbatim>\<open>true\<close> for it.
\<close>

theorem importAlerts_malformed_counterexample:
  "\<not> hasArrayField (Some brokenDocument) ''activeAlerts''
   \<and> \<not> hasArrayField (Some brokenDocument) ''archivedAlerts''
   \<and> importAlerts acceptAll (Some brokenDocument) savedStore = (True, savedStore)"
  by (simp add: brokenDocument_fields)
     (simp add: importAlerts_def brokenDocument_def entryOf_def)

theorem importAlerts_without_collections_witness:
  "\<not> hasArrayField (Some brokenDocument) ''activeAlerts''
   \<and> \<not> hasArrayField (Some brokenDocument) ''archivedAlerts''
   \<and> snd (importAlerts acceptAll (Some brokenDocument) savedStore) = savedStore
   \<and> fst (importAlerts acceptAll (Some brokenDocument) savedStore)
   \<and> \<not> hasArrayField None ''activeAlerts'' \<and> \<not> hasArrayField None ''archivedAlerts''
   \<and> importAlerts acceptAll None savedStore = (False, savedStore)
   \<and> importAlerts acceptAll (Some JNull) savedStore = (False, savedStore)"
proof -
  have "snd (importAlerts acceptAll (Some brokenDocument) savedStore) = savedStore
        \<and> (fst (importAlerts acceptAll (Some brokenDocument) savedStore) \<longleftrightarrow>
             Some brokenDocument \<noteq> None \<and> Some brokenDocument \<noteq> Some JNull)"
    using importAlerts_without_collections [where jsonData = "Some brokenDocument"
        and q = acceptAll and s = savedStore] brokenDocument_fields
    by blast
  moreover have "brokenDocument \<noteq> JNull"
    by (simp add: brokenDocument_def)
  moreover have "\<not> hasArrayField None ''activeAlerts''" "\<not> hasArrayField None ''archivedAlerts''"
    by (simp_all add: hasArrayField_def)
  moreover have "importAlerts acceptAll None savedStore = (False, savedStore)"
    "importAlerts acceptAll (Some JNull) savedStore = (False, savedStore)"
    by (simp_all add: importAlerts_def)
  ultimately show ?thesis
    using brokenDocument_fields by simp
qed

section \<open>Identifiers in the active collection\<close>

lemma idsOf_Nil [simp]: "idsOf [] = []"
  by (simp add: idsOf_def)

lemma idsOf_Cons:
  "idsOf (x # xs) =
     (case idString (getProp x ''id'') of None \<Rightarrow> idsOf xs | Some i \<Rightarrow> i # idsOf xs)"
  by (simp add: idsOf_def split: option.splits)

lemma idString_hasId: "idString (getProp x ''id'') = Some i \<longleftrightarrow> hasId i x"
proof (cases "getProp x ''id''")
  case (Value v)
  then show ?thesis by (cases v) (auto simp: hasId_def)
qed (auto simp: hasId_def)

lemma set_idsOf: "set (idsOf xs) = {i. \<exists>x \<in> set xs. hasId i x}"
proof (induction xs)
  case Nil
  then show ?case by simp
next
  case (Cons x xs)
  show ?case
  proof (cases "idString (getProp x ''id'')")
    case None
    then have "\<And>i. \<not> hasId i x"
      using idString_hasId[of x] by simp
    with None Cons show ?thesis by (auto simp: idsOf_Cons)
  next
    case (Some j)
    then have "\<And>i. hasId i x \<longleftrightarrow> i = j"
      unfolding idString_hasId[symmetric] by auto
    with Some Cons show ?thesis by (auto simp: idsOf_Cons)
  qed
qed

lemma idsOf_filter_distinct:
  "distinct (idsOf xs) \<Longrightarrow> distinct (idsOf (filter P xs))"
proof (induction xs)
  case Nil
  then show ?case by simp
next
  case (Cons x xs)
  have sub: "set (idsOf (filter P xs)) \<subseteq> set (idsOf xs)"
    by (auto simp: set_idsOf)
  show ?case
  proof (cases "idString (getProp x ''id'')")
    case None
    with Cons show ?thesis by (simp add: idsOf_Cons)
  next
    case (Some i)
    with Cons sub show ?thesis by (auto simp: idsOf_Cons)
  qed
qed

lemma idsOf_take_distinct:
  "distinct (idsOf xs) \<Longrightarrow> distinct (idsOf (take n xs))"
proof (induction xs arbitrary: n)
  case Nil
  then show ?case by simp
next
  case (Cons x xs)
  show ?case
  proof (cases n)
    case 0
    then show ?thesis by simp
  next
    case (Suc m)
    have sub: "set (idsOf (take m xs)) \<subseteq> set (idsOf xs)"
      by (auto simp: set_idsOf dest: in_set_takeD)
    show ?thesis
    proof (cases "idString (getProp x ''id'')")
      case None
      with Cons Suc show ?thesis by (simp add: idsOf_Cons)
    next
      case (Some i)
      with Cons Suc sub show ?thesis by (auto simp: idsOf_Cons)
    qed
  qed
qed

lemma idsOf_update:
  "k < length xs \<Longrightarrow> getProp y ''id'' = getProp (xs ! k) ''id'' \<Longrightarrow>
   idsOf (xs[k := y]) = idsOf xs"
proof (induction xs arbitrary: k)
  case Nil
  then show ?case by simp
next
  case (Cons x xs)
  show ?case
  proof (cases k)
    case 0
    with Cons.prems show ?thesis by (simp add: idsOf_Cons split: option.splits)
  next
    case (Suc m)
    with Cons.prems have "m < length xs" and "getProp y ''id'' = getProp (xs ! m) ''id''"
      by simp_all
    then have "idsOf (xs[m := y]) = idsOf xs"
      by (rule Cons.IH)
    with Suc show ?thesis by (simp add: idsOf_Cons split: option.splits)
  qed
qed

lemma saveAlert_distinct:
  assumes "distinct (idsOf (getAllAlerts s))"
  shows "distinct (idsOf (getAllAlerts (snd (saveAlert q alert s))))"
proof (cases "fst (saveAlert q alert s)")
  case True
  then have acc: "saveAlert q alert s = (True, snd (saveAlert q alert s))"
    by (simp add: prod_eq_iff)
  let ?a = "JAlert (alert\<lparr>severity := Some (classifyAlertSeverity alert)\<rparr>)"
  have "AlertData.id' alert \<notin> set (idsOf (getAllAlerts s))"
    using saveAlert_accepted(1)[OF acc] by (auto simp: list_ex_iff set_idsOf)
  with assms have "distinct (idsOf (?a # getAllAlerts s))"
    by (simp add: idsOf_Cons)
  then have "distinct (idsOf (take MAX_ACTIVE_ALERTS (?a # getAllAlerts s)))"
    by (rule idsOf_take_distinct)
  then show ?thesis
    by (simp only: saveAlert_accepted(3)[OF acc])
next
  case False
  then show ?thesis
    using assms by (simp add: saveAlert_rejected_active)
qed

lemma markEmailSent_ids:
  "idsOf (getAllAlerts (snd (markEmailSent q alertId s))) = idsOf (getAllAlerts s)"
proof -
  from markEmailSent_result[of q alertId s] show ?thesis
  proof
    assume "snd (markEmailSent q alertId s) = s"
    then show ?thesis by simp
  next
    assume "\<exists>k marked. k < length (getAllAlerts s) \<and> hasId alertId (getAllAlerts s ! k)
        \<and> setEmailSent (getAllAlerts s ! k) = Some marked
        \<and> snd (markEmailSent q alertId s) =
            s\<lparr>safetrack_critical_alerts := Holds ((getAllAlerts s)[k := marked])\<rparr>"
    then obtain k marked where k: "k < length (getAllAlerts s)"
      and m: "setEmailSent (getAllAlerts s ! k) = Some marked"
      and r: "snd (markEmailSent q alertId s) =
            s\<lparr>safetrack_critical_alerts := Holds ((getAllAlerts s)[k := marked])\<rparr>"
      by blast
    have "getProp marked ''id'' = getProp (getAllAlerts s ! k) ''id''"
      using getProp_setEmailSent[OF m, of "''id''"] by simp
    from idsOf_update[OF k this] show ?thesis
      unfolding r by simp
  qed
qed

lemma perform_distinct:
  assumes "distinct (idsOf (getAllAlerts s))"
  shows "distinct (idsOf (getAllAlerts (perform q cal op s)))"
proof (cases op)
  case (Submit alert)
  then show ?thesis using assms by (simp add: saveAlert_distinct)
next
  case (Archive alerts)
  then show ?thesis using assms by simp
next
  case (Delete alertId)
  then show ?thesis using assms by (simp add: deleteAlert_cases idsOf_filter_distinct)
next
  case (Cleanup daysToKeep)
  then show ?thesis
    using assms cleanupOldAlerts_active[of q cal daysToKeep s]
    by (auto simp: idsOf_filter_distinct)
next
  case (MarkEmailSent alertId)
  then show ?thesis using assms by (simp add: markEmailSent_ids)
next
  case ClearActive
  then show ?thesis by (simp add: clearAllAlerts_def removeItem_def)
next
  case ClearArchived
  then show ?thesis using assms by (simp add: clearArchivedAlerts_def removeItem_def)
qed

lemma run_distinct:
  "distinct (idsOf (getAllAlerts s)) \<Longrightarrow> distinct (idsOf (getAllAlerts (run calls s)))"
proof (induction calls arbitrary: s)
  case Nil
  then show ?case by simp
next
  case (Cons call calls)
  obtain q cal op where call: "call = (q, cal, op)"
    by (cases call) auto
  have "distinct (idsOf (getAllAlerts (perform q cal op s)))"
    using Cons.prems by (rule perform_distinct)
  then show ?case
    unfolding call run.simps by (rule Cons.IH)
qed

text \<open>The active collection holds alert records when the operations started with them.\<close>

lemma perform_records:
  assumes "\<forall>x \<in> set (getAllAlerts s). \<exists>a. x = JAlert a"
  shows "\<forall>x \<in> set (getAllAlerts (perform q cal op s)). \<exists>a. x = JAlert a"
proof (cases op)
  case (Submit alert)
  then show ?thesis
    using assms saveAlert_active_subset[of q alert s] by auto
next
  case (Archive alerts)
  then show ?thesis using assms by simp
next
  case (Delete alertId)
  then show ?thesis
    using assms deleteAlert_active_subset[of q alertId s] by auto
next
  case (Cleanup daysToKeep)
  then show ?thesis
    using assms cleanupOldAlerts_active_subset[of q cal daysToKeep s] by auto
next
  case (MarkEmailSent alertId)
  show ?thesis
  proof
    fix y assume "y \<in> set (getAllAlerts (perform q cal op s))"
    then have "y \<in> set (getAllAlerts s) \<or> (\<exists>x \<in> set (getAllAlerts s). setEmailSent x = Some y)"
      using markEmailSent_active_subset[of q alertId s] unfolding MarkEmailSent by auto
    then show "\<exists>a. y = JAlert a"
    proof
      assume "y \<in> set (getAllAlerts s)"
      with assms show ?thesis by simp
    next
      assume "\<exists>x \<in> set (getAllAlerts s). setEmailSent x = Some y"
      then obtain x where "x \<in> set (getAllAlerts s)" and e: "setEmailSent x = Some y" by blast
      with assms obtain a where "x = JAlert a" by blast
      with e show ?thesis by auto
    qed
  qed
next
  case ClearActive
  then show ?thesis by (simp add: clearAllAlerts_def removeItem_def)
next
  case ClearArchived
  then show ?thesis using assms by (simp add: clearArchivedAlerts_def removeItem_def)
qed

lemma run_records:
  "\<forall>x \<in> set (getAllAlerts s). \<exists>a. x = JAlert a \<Longrightarrow>
   \<forall>x \<in> set (getAllAlerts (run calls s)). \<exists>a. x = JAlert a"
proof (induction calls arbitrary: s)
  case Nil
  then show ?case by simp
next
  case (Cons call calls)
  obtain q cal op where call: "call = (q, cal, op)"
    by (cases call) auto
  have "\<forall>x \<in> set (getAllAlerts (perform q cal op s)). \<exists>a. x = JAlert a"
    using Cons.prems by (rule perform_records)
  then show ?case
    unfolding call run.simps by (rule Cons.IH)
qed

lemma records_alertsOf:
  "\<forall>x \<in> set xs. \<exists>a. x = JAlert a \<Longrightarrow>
   map JAlert (alertsOf xs) = xs \<and> idsOf xs = map AlertData.id' (alertsOf xs)"
proof (induction xs)
  case Nil
  then show ?case by (simp add: alertsOf_def)
next
  case (Cons x xs)
  then obtain a where "x = JAlert a" by auto
  with Cons show ?case
    by (simp add: alertsOf_def idsOf_Cons)
qed

text \<open>
  C6, as amended. In every state that the operations of the store (submit, archive, delete,
  cleanup, markEmailSent and the two clears) reach from the empty store, the active
  collection holds alert records, no two of them with the same \<^verbatim>\<open>id\<close>; and from any
  store whose active elements have different \<^verbatim>\<open>id\<close> strings they reach only stores of
  which that holds. Nothing is said of the archive: \<^verbatim>\<open>saveAlert\<close> looks for the
  \<^verbatim>\<open>id\<close> in the active collection only.
\<close>

theorem active_ids_unique:
  "distinct (idsOf (getAllAlerts (run calls emptyStore)))
   \<and> getAllAlerts (run calls emptyStore) =
       map JAlert (alertsOf (getAllAlerts (run calls emptyStore)))
   \<and> distinct (map AlertData.id' (alertsOf (getAllAlerts (run calls emptyStore))))
   \<and> (distinct (idsOf (getAllAlerts s)) \<longrightarrow> distinct (idsOf (getAllAlerts (run calls s))))"
proof (intro conjI impI)
  have "distinct (idsOf (getAllAlerts emptyStore))"
    by simp
  then show d: "distinct (idsOf (getAllAlerts (run calls emptyStore)))"
    by (rule run_distinct)
  have "\<forall>x \<in> set (getAllAlerts emptyStore). \<exists>a. x = JAlert a"
    by simp
  then have "\<forall>x \<in> set (getAllAlerts (run calls emptyStore)). \<exists>a. x = JAlert a"
    by (rule run_records)
  from records_alertsOf[OF this]
  show "getAllAlerts (run calls emptyStore) =
       map JAlert (alertsOf (getAllAlerts (run calls emptyStore)))"
    and "distinct (map AlertData.id' (alertsOf (getAllAlerts (run calls emptyStore))))"
    using d by simp_all
next
  assume "distinct (idsOf (getAllAlerts s))"
  then show "distinct (idsOf (getAllAlerts (run calls s)))"
    by (rule run_distinct)
qed

theorem active_ids_unique_witness:
  "distinct (idsOf (getAllAlerts savedStore))
   \<and> distinct (idsOf (getAllAlerts (run resubmission savedStore)))"
proof -
  have "distinct (idsOf (getAllAlerts savedStore))"
    by (simp add: savedStore_def getAllAlerts_def idsOf_Cons)
  then show ?thesis
    using active_ids_unique [where s = savedStore and calls = resubmission] by blast
qed

lemma sampleAlert_resaved:
  "saveAlert acceptAll sampleAlert archivedStore = (True, resubmittedStore)"
  by (simp add: saveAlert_def acceptAll_def sampleAlert_def archivedStore_def getAllAlerts_def
      setItem_def MAX_ACTIVE_ALERTS_def classifyAlertSeverity_def resubmittedStore_def)

lemma run_resubmission: "run resubmission emptyStore = resubmittedStore"
  by (simp add: resubmission_def sampleAlert_saved savedStore_cleanup sampleAlert_resaved)

text \<open>
  C6 as stated fails: after a submission, a cleanup that archives the record and a second
  submission of the same alert, its \<^verbatim>\<open>id\<close> is in the active collection and in the
  archive.
\<close>

theorem ids_unique_counterexample:
  "run resubmission emptyStore = resubmittedStore
   \<and> idsOf (everyAlert resubmittedStore) =
       [''band7-2024-05-01T10:00:00Z'', ''band7-2024-05-01T10:00:00Z'']
   \<and> \<not> distinct (idsOf (everyAlert (run resubmission emptyStore)))"
proof -
  have "idsOf (everyAlert resubmittedStore) =
       [''band7-2024-05-01T10:00:00Z'', ''band7-2024-05-01T10:00:00Z'']"
    by (simp add: everyAlert_def resubmittedStore_def getAllAlerts_def getArchivedAlerts_def
        sampleAlert_def idsOf_Cons)
  then show ?thesis
    by (simp add: run_resubmission)
qed

section \<open>Overflow of the active collection\<close>

lemma overflow_of_full:
  assumes "length xs = n" and "0 < n"
  shows "drop n (x # xs) = [last xs]" and "take n (x # xs) = x # butlast xs"
proof -
  have ne: "xs \<noteq> []" using assms by auto
  have "drop n (x # xs) = drop (n - 1) xs"
    using assms by (simp add: drop_Cons')
  also have "\<dots> = [last xs]"
    using assms ne by (metis One_nat_def append_butlast_last_id append_eq_conv_conj length_butlast)
  finally show "drop n (x # xs) = [last xs]" .
  show "take n (x # xs) = x # butlast xs"
    using assms by (simp add: take_Cons' butlast_conv_take)
qed

lemma fullStore_active:
  "getAllAlerts fullStore = map (\<lambda>n. JAlert (alertAt n)) (rev [0..<1000])"
  by (simp add: fullStore_def getAllAlerts_def)

lemma fullStore_length: "length (getAllAlerts fullStore) = 1000"
  by (simp add: fullStore_active)

lemma fullStore_archived: "getArchivedAlerts fullStore = []"
  by (simp add: fullStore_def getArchivedAlerts_def)

lemma fullStore_last: "last (getAllAlerts fullStore) = JAlert (alertAt 0)"
  by (simp add: fullStore_active last_map last_rev)

lemma fullStore_fresh:
  "\<not> list_ex (hasId (AlertData.id' sampleAlert)) (getAllAlerts fullStore)"
  by (simp add: fullStore_active list_ex_iff alertAt_def sampleAlert_def)

lemma fullStore_records: "JNull \<notin> set (getAllAlerts fullStore)"
  by (auto simp: fullStore_active)

lemma twoDigits_zero:
  assumes "twoDigits k = twoDigits 0" and "k < 100"
  shows "k = 0"
proof -
  from assms(1) have "(48 + k div 10) mod 256 = 48 mod (256::nat)"
    and "(48 + k mod 10) mod 256 = 48 mod (256::nat)"
    by (simp_all add: twoDigits_def char_of_eq_iff take_bit_eq_mod)
  with assms(2) have "k div 10 = 0" and "k mod 10 = 0" by simp_all
  then show ?thesis by simp
qed

lemma stampAt_parts:
  assumes "stampAt n = stampAt 0"
  shows "twoDigits (n div 60 mod 60) = twoDigits 0 \<and> twoDigits (n mod 60) = twoDigits 0"
proof -
  have l: "\<And>k. length (twoDigits k) = 2" by (simp add: twoDigits_def)
  from assms show ?thesis
    by (simp add: stampAt_def l)
qed

lemma stampAt_zero:
  assumes "stampAt n = stampAt 0" and "n < 1000"
  shows "n = 0"
proof -
  from stampAt_parts[OF assms(1)] have "n div 60 mod 60 = 0" and "n mod 60 = 0"
    by (simp_all add: twoDigits_zero)
  then have "n div 60 mod 60 = 0" and "60 dvd n" by auto
  then obtain m where m: "n = 60 * m" by (auto simp: dvd_def)
  with \<open>n div 60 mod 60 = 0\<close> have "m mod 60 = 0" by simp
  moreover from m assms(2) have "m < 60" by simp
  ultimately have "m = 0" by simp
  with m show ?thesis by simp
qed

lemma fullStore_butlast:
  "butlast (getAllAlerts fullStore) = map (\<lambda>n. JAlert (alertAt n)) (rev [Suc 0..<1000])"
proof -
  have "[0..<1000] = 0 # [Suc 0..<1000]" by (rule upt_conv_Cons) simp
  then have "rev [0..<1000] = rev [Suc 0..<1000] @ [0]" by (simp only: rev.simps)
  then have "butlast (rev [0..<1000]) = rev [Suc 0..<1000]" by (simp only: butlast_snoc)
  then show ?thesis
    by (simp only: fullStore_active map_butlast[symmetric])
qed

lemma fullStore_oldest_once:
  "\<not> list_ex (hasId (AlertData.id' (alertAt 0))) (butlast (getAllAlerts fullStore))"
proof
  assume "list_ex (hasId (AlertData.id' (alertAt 0))) (butlast (getAllAlerts fullStore))"
  then obtain x where x: "x \<in> set (map (\<lambda>n. JAlert (alertAt n)) (rev [Suc 0..<1000]))"
    and h: "hasId (AlertData.id' (alertAt 0)) x"
    unfolding fullStore_butlast list_ex_iff by blast
  from x obtain n where n: "n \<in> set (rev [Suc 0..<1000])" and xn: "x = JAlert (alertAt n)"
    by (auto simp only: set_map)
  from n have pos: "0 < n" and small: "n < 1000" by (simp_all only: set_rev set_upt atLeastLessThan_iff Suc_le_eq)
  from h xn have "stampAt n = stampAt 0" by (simp add: alertAt_def)
  from stampAt_zero[OF this small] pos show False by simp
qed

lemma sampleAlert_severity: "classifyAlertSeverity sampleAlert = CRITICAL"
  by (simp add: classifyAlertSeverity_def sampleAlert_def)

lemma fullStore_saved:
  "saveAlert q sampleAlert fullStore =
     (if q STORAGE_KEY (JAlert (sampleAlert\<lparr>severity := Some CRITICAL\<rparr>) #
                         butlast (getAllAlerts fullStore))
      then (True, (snd (archiveAlerts q [JAlert (alertAt 0)] fullStore))
                   \<lparr>safetrack_critical_alerts :=
                      Holds (JAlert (sampleAlert\<lparr>severity := Some CRITICAL\<rparr>) #
                             butlast (getAllAlerts fullStore))\<rparr>)
      else (False, snd (archiveAlerts q [JAlert (alertAt 0)] fullStore)))"
proof -
  let ?a = "JAlert (sampleAlert\<lparr>severity := Some (classifyAlertSeverity sampleAlert)\<rparr>)"
  have c: "\<not> (JNull \<in> set (getAllAlerts fullStore)
               \<or> list_ex (hasId (AlertData.id' sampleAlert)) (getAllAlerts fullStore))"
    using fullStore_fresh fullStore_records by simp
  have big: "MAX_ACTIVE_ALERTS \<le> length (getAllAlerts fullStore)"
    by (simp add: fullStore_length MAX_ACTIVE_value)
  have len: "length (getAllAlerts fullStore) = MAX_ACTIVE_ALERTS"
    by (simp add: fullStore_length MAX_ACTIVE_value)
  have parts: "drop MAX_ACTIVE_ALERTS (?a # getAllAlerts fullStore) = [JAlert (alertAt 0)]"
    "take MAX_ACTIVE_ALERTS (?a # getAllAlerts fullStore) = ?a # butlast (getAllAlerts fullStore)"
    using overflow_of_full[OF len MAX_ACTIVE_pos, of ?a] by (simp_all add: fullStore_last)
  show ?thesis
    by (subst saveAlert_cases, subst if_not_P[OF c], subst if_P[OF big])
       (simp only: parts, simp only: sampleAlert_severity)
qed

text \<open>
  C4. The code at the failing input: the active collection holds 1000 alerts, the oldest
  last, the archive is empty, and the browser refuses the write of the archive and accepts
  the one of the active collection. \<^verbatim>\<open>saveAlert\<close> does not look at what
  \<^verbatim>\<open>archiveAlerts\<close> returns: the submission of one more alert returns \<^verbatim>\<open>true\<close>,
  the 1000 newest of the 1001 are active, the archive is as empty as before, and no element
  of either collection has the \<^verbatim>\<open>id\<close> of the oldest alert, which was active before the
  call. In a browser that accepts both writes the same call leaves that alert in the
  archive, with \<^verbatim>\<open>archived\<close> set.
\<close>

theorem saveAlert_overflow_unarchived:
  "length (getAllAlerts fullStore) = 1000
   \<and> getArchivedAlerts fullStore = []
   \<and> last (getAllAlerts fullStore) = JAlert (alertAt 0)
   \<and> \<not> list_ex (hasId (AlertData.id' sampleAlert)) (getAllAlerts fullStore)
   \<and> saveAlert refuseArchive sampleAlert fullStore =
       (True,
        \<lparr>safetrack_critical_alerts =
           Holds (JAlert (sampleAlert\<lparr>severity := Some CRITICAL\<rparr>) #
                  butlast (getAllAlerts fullStore)),
         safetrack_archived_alerts = Absent\<rparr>)
   \<and> length (getAllAlerts (snd (saveAlert refuseArchive sampleAlert fullStore))) = 1000
   \<and> getArchivedAlerts (snd (saveAlert refuseArchive sampleAlert fullStore)) = []
   \<and> \<not> list_ex (hasId (AlertData.id' (alertAt 0)))
          (everyAlert (snd (saveAlert refuseArchive sampleAlert fullStore)))
   \<and> saveAlert acceptAll sampleAlert fullStore =
       (True,
        \<lparr>safetrack_critical_alerts =
           Holds (JAlert (sampleAlert\<lparr>severity := Some CRITICAL\<rparr>) #
                  butlast (getAllAlerts fullStore)),
         safetrack_archived_alerts = Holds [JAlert ((alertAt 0)\<lparr>archived := Some True\<rparr>)]\<rparr>)"
proof -
  have refused: "archiveAlerts refuseArchive [JAlert (alertAt 0)] fullStore = (False, fullStore)"
    by (simp add: archiveAlerts_cases refuseArchive_def del: take_append)
  have accepted: "archiveAlerts acceptAll [JAlert (alertAt 0)] fullStore =
      (True, fullStore\<lparr>safetrack_archived_alerts :=
                Holds [JAlert ((alertAt 0)\<lparr>archived := Some True\<rparr>)]\<rparr>)"
    by (simp add: archiveAlerts_cases acceptAll_def fullStore_archived MAX_ARCHIVED_value
        del: take_append)
  have one: "saveAlert refuseArchive sampleAlert fullStore =
       (True,
        \<lparr>safetrack_critical_alerts =
           Holds (JAlert (sampleAlert\<lparr>severity := Some CRITICAL\<rparr>) #
                  butlast (getAllAlerts fullStore)),
         safetrack_archived_alerts = Absent\<rparr>)"
    by (simp add: fullStore_saved refused)
       (simp add: refuseArchive_def fullStore_def)
  have two: "saveAlert acceptAll sampleAlert fullStore =
       (True,
        \<lparr>safetrack_critical_alerts =
           Holds (JAlert (sampleAlert\<lparr>severity := Some CRITICAL\<rparr>) #
                  butlast (getAllAlerts fullStore)),
         safetrack_archived_alerts = Holds [JAlert ((alertAt 0)\<lparr>archived := Some True\<rparr>)]\<rparr>)"
    by (simp add: fullStore_saved accepted)
       (simp add: acceptAll_def fullStore_def)
  have gone: "\<not> list_ex (hasId (AlertData.id' (alertAt 0)))
          (everyAlert (snd (saveAlert refuseArchive sampleAlert fullStore)))"
    using fullStore_oldest_once
    by (simp add: one everyAlert_def getAllAlerts_def getArchivedAlerts_def)
       (simp add: alertAt_def sampleAlert_def)
  have len: "length (getAllAlerts (snd (saveAlert refuseArchive sampleAlert fullStore))) = 1000"
    by (simp add: one getAllAlerts_def) (simp add: fullStore_def)
  have arch: "getArchivedAlerts (snd (saveAlert refuseArchive sampleAlert fullStore)) = []"
    by (simp add: one getArchivedAlerts_def)
  from one two gone len arch fullStore_length fullStore_archived fullStore_last fullStore_fresh
  show ?thesis by blast
qed

section \<open>Cleanup by age\<close>

lemma undatedAlert_neither:
  "\<not> oldBy utcCalendar (Some 1716717600000) (JAlert undatedAlert)"
  "\<not> keptBy utcCalendar (Some 1716717600000) (JAlert undatedAlert)"
  by (simp_all add: oldBy_def keptBy_def older_def notOlder_def dateLt_def dateGe_def
      utcParse_def undatedAlert_def)

lemma recentAlert_kept:
  "keptBy utcCalendar (Some 1716717600000) (JAlert (recentAlert\<lparr>severity := Some HIGH\<rparr>))"
  "\<not> oldBy utcCalendar (Some 1716717600000) (JAlert (recentAlert\<lparr>severity := Some HIGH\<rparr>))"
  by (simp_all add: oldBy_def keptBy_def older_def notOlder_def dateLt_def dateGe_def
      utcParse_def recentAlert_def)

lemma utc_cutoff_invalid: "cutoffDate utcCalendar (- 200000000) = None"
  by (simp add: cutoffDate_def utcCalendar_def utcSetDateBack_def)

lemma cleanupOldAlerts_invalid_cutoff:
  assumes "cutoffDate cal daysToKeep = None"
    and "\<not> list_ex (\<lambda>x. dateOf cal x = Raised) (getAllAlerts s)"
  shows "cleanupOldAlerts q cal daysToKeep s = (Some 0, s)"
proof -
  have "filter (oldBy cal None) (getAllAlerts s) = []"
    by (simp add: oldBy_def older_def dateLt_def filter_empty_conv split: option.splits made.splits)
  with assms show ?thesis
    by (simp add: cleanupOldAlerts_cases)
qed

text \<open>
  C7. The code at the failing input: the active collection holds one alert of
  2024-05-01, the clock is at 2024-06-25, and the browser refuses the write of the archive
  and accepts the one of the active collection. \<^verbatim>\<open>cleanupOldAlerts(30)\<close> does not look
  at what \<^verbatim>\<open>archiveAlerts\<close> returns: it returns 1, and the alert is in neither
  collection. Two more inputs, in a browser that accepts every write: an alert whose
  \<^verbatim>\<open>timestamp\<close> is no date is neither older than the cutoff nor at or after it, and a
  cleanup that archives another alert removes it from the active collection without
  archiving it; and with \<^verbatim>\<open>daysToKeep\<close> so far from zero that \<^verbatim>\<open>setDate\<close> makes
  the cutoff an Invalid Date, nothing is older and the call returns 0. With the writes
  accepted and dates that parse, the call moves the old alert to the archive and returns 1,
  an alert of 2024-06-20 stays active, and the next call returns 0.
\<close>

theorem cleanupOldAlerts_unarchived:
  "everyAlert savedStore = [JAlert (sampleAlert\<lparr>severity := Some CRITICAL\<rparr>)]
   \<and> cutoffDate utcCalendar 30 = Some 1716717600000
   \<and> oldBy utcCalendar (cutoffDate utcCalendar 30)
        (JAlert (sampleAlert\<lparr>severity := Some CRITICAL\<rparr>))
   \<and> cleanupOldAlerts refuseArchive utcCalendar 30 savedStore =
       (Some 1, \<lparr>safetrack_critical_alerts = Holds [], safetrack_archived_alerts = Absent\<rparr>)
   \<and> everyAlert (snd (cleanupOldAlerts refuseArchive utcCalendar 30 savedStore)) = []
   \<and> \<not> oldBy utcCalendar (cutoffDate utcCalendar 30) (JAlert undatedAlert)
   \<and> \<not> keptBy utcCalendar (cutoffDate utcCalendar 30) (JAlert undatedAlert)
   \<and> everyAlert undatedStore =
       [JAlert undatedAlert, JAlert (sampleAlert\<lparr>severity := Some CRITICAL\<rparr>)]
   \<and> cleanupOldAlerts acceptAll utcCalendar 30 undatedStore = (Some 1, archivedStore)
   \<and> everyAlert archivedStore =
       [JAlert (sampleAlert\<lparr>severity := Some CRITICAL, archived := Some True\<rparr>)]
   \<and> cutoffDate utcCalendar (- 200000000) = None
   \<and> cleanupOldAlerts acceptAll utcCalendar (- 200000000) savedStore = (Some 0, savedStore)
   \<and> cleanupOldAlerts acceptAll utcCalendar 30 savedStore = (Some 1, archivedStore)
   \<and> cleanupOldAlerts acceptAll utcCalendar 30 archivedStore = (Some 0, archivedStore)
   \<and> cleanupOldAlerts acceptAll utcCalendar 30 mixedStore = (Some 1, cleanedStore)
   \<and> cleanupOldAlerts acceptAll utcCalendar 30 cleanedStore = (Some 0, cleanedStore)"
proof -
  have a: "everyAlert savedStore = [JAlert (sampleAlert\<lparr>severity := Some CRITICAL\<rparr>)]"
    "everyAlert undatedStore =
       [JAlert undatedAlert, JAlert (sampleAlert\<lparr>severity := Some CRITICAL\<rparr>)]"
    "everyAlert archivedStore =
       [JAlert (sampleAlert\<lparr>severity := Some CRITICAL, archived := Some True\<rparr>)]"
    by (simp_all add: everyAlert_def savedStore_def undatedStore_def archivedStore_def
        getAllAlerts_def getArchivedAlerts_def)
  have b: "cleanupOldAlerts refuseArchive utcCalendar 30 savedStore =
       (Some 1, \<lparr>safetrack_critical_alerts = Holds [], safetrack_archived_alerts = Absent\<rparr>)"
    using sampleAlert_old
    by (simp add: cleanupOldAlerts_cases utc_cutoff savedStore_def getAllAlerts_def
        getArchivedAlerts_def archiveAlerts_def setItem_def refuseArchive_def
        MAX_ARCHIVED_ALERTS_def)
  have c: "everyAlert (snd (cleanupOldAlerts refuseArchive utcCalendar 30 savedStore)) = []"
    by (simp add: b everyAlert_def getAllAlerts_def getArchivedAlerts_def)
  have d: "cleanupOldAlerts acceptAll utcCalendar 30 undatedStore = (Some 1, archivedStore)"
    using sampleAlert_old undatedAlert_neither
    by (simp add: cleanupOldAlerts_cases utc_cutoff undatedStore_def getAllAlerts_def
        getArchivedAlerts_def archiveAlerts_def setItem_def acceptAll_def
        MAX_ARCHIVED_ALERTS_def archivedStore_def)
  have e: "cleanupOldAlerts acceptAll utcCalendar (- 200000000) savedStore = (Some 0, savedStore)"
    by (rule cleanupOldAlerts_invalid_cutoff[OF utc_cutoff_invalid])
       (simp add: savedStore_def getAllAlerts_def)
  have f: "cleanupOldAlerts acceptAll utcCalendar 30 archivedStore = (Some 0, archivedStore)"
    by (simp add: cleanupOldAlerts_cases archivedStore_def getAllAlerts_def)
  have g: "cleanupOldAlerts acceptAll utcCalendar 30 mixedStore = (Some 1, cleanedStore)"
    using sampleAlert_old recentAlert_kept
    by (simp add: cleanupOldAlerts_cases utc_cutoff mixedStore_def getAllAlerts_def
        getArchivedAlerts_def archiveAlerts_def setItem_def acceptAll_def
        MAX_ARCHIVED_ALERTS_def cleanedStore_def)
  have h: "cleanupOldAlerts acceptAll utcCalendar 30 cleanedStore = (Some 0, cleanedStore)"
    using recentAlert_kept
    by (simp add: cleanupOldAlerts_cases utc_cutoff cleanedStore_def getAllAlerts_def)
  from a b c d e f g h sampleAlert_old undatedAlert_neither utc_cutoff utc_cutoff_invalid
    savedStore_cleanup
  show ?thesis by simp
qed

end
